theory Spec2Isabelle
  imports Complex_Main
begin

section \<open>Exceptions, asynchronous calls and the Prisma client\<close>

text \<open>
  A JavaScript \<^verbatim>\<open>throw\<close> is a value: \<open>Error m\<close> is an instance of \<^verbatim>\<open>Error\<close> with
  message \<open>m\<close>, \<open>Thrown\<close> is any thrown value that is not an \<^verbatim>\<open>Error\<close> instance.
  An \<^verbatim>\<open>async\<close> function over a backing store is a function from the store to its
  result (\<open>Inl\<close> the exception, \<open>Inr\<close> the returned value) and the store it leaves
  behind: what a call wrote before it threw stays written.
\<close>

datatype exn = Error string | Thrown

type_synonym ('s, 'a) async = "'s \<Rightarrow> (exn + 'a) \<times> 's"

definition resolve :: "'a \<Rightarrow> ('s, 'a) async" where
  "resolve a s = (Inr a, s)"

definition throw :: "exn \<Rightarrow> ('s, 'a) async" where
  "throw e s = (Inl e, s)"

definition await :: "('s, 'a) async \<Rightarrow> ('a \<Rightarrow> ('s, 'b) async) \<Rightarrow> ('s, 'b) async" where
  "await m f s = (case m s of (Inl e, s') \<Rightarrow> (Inl e, s') | (Inr a, s') \<Rightarrow> f a s')"

definition try_catch :: "('s, 'a) async \<Rightarrow> (exn \<Rightarrow> ('s, 'a) async) \<Rightarrow> ('s, 'a) async" where
  "try_catch m h s = (case m s of (Inl e, s') \<Rightarrow> h e s' | (Inr a, s') \<Rightarrow> (Inr a, s'))"

subsection \<open>Tables (prisma/migrations/20260101140445_init/migration.sql)\<close>

text \<open>
  Rows carry the columns the modelled queries read. Field names are prefixed by the
  table, since \<open>id\<close> and \<open>name\<close> occur in every table.
\<close>

record User =
  user_id :: string
  user_name :: string
  user_email :: string
  user_password :: string
  user_created_at :: int

record Role =
  role_id :: string
  role_name :: string
  role_created_at :: int

record Permission =
  permission_id :: string
  permission_name :: string

record UserRole =
  ur_user_id :: string
  ur_role_id :: string

record RolePermission =
  rp_role_id :: string
  rp_permission_id :: string

text \<open>
  \<open>faults\<close> is the fate of the coming round trips to the database, in order:
  \<open>None\<close> lets the call through, \<open>Some e\<close> makes it throw \<open>e\<close> (connection lost, timeout);
  the empty list is a database that answers every call.
\<close>

record database =
  users :: "User list"
  roles :: "Role list"
  permissions :: "Permission list"
  user_roles :: "UserRole list"
  role_permissions :: "RolePermission list"
  faults :: "exn option list"

definition prisma_call :: "(database, 'a) async \<Rightarrow> (database, 'a) async" where
  "prisma_call q db =
     (case faults db of
        [] \<Rightarrow> q db
      | None # fs \<Rightarrow> q (db\<lparr>faults := fs\<rparr>)
      | Some e # fs \<Rightarrow> (Inl e, db\<lparr>faults := fs\<rparr>))"

section \<open>HTTP responses\<close>

text \<open>
  A middleware either calls \<^verbatim>\<open>next()\<close> or sends a response: a status code and a JSON
  body. \<^verbatim>\<open>{success, message, data}\<close> is the envelope of the controllers and of the
  authorization middlewares; \<open>data = None\<close> is \<^verbatim>\<open>null\<close>.
\<close>

record 'd envelope =
  success :: bool
  message :: string
  data :: "'d option"

datatype 'b outcome = Next | Respond nat 'b

text \<open>
  Modelled from the spec: the constants of \<^verbatim>\<open>@/lib/http-status-codes\<close>, which is not among
  the source files; the values are the standard HTTP codes the spec names (401, 403, 500).
\<close>

definition OK :: nat where "OK = 200"
definition UNAUTHORIZED :: nat where "UNAUTHORIZED = 401"
definition FORBIDDEN :: nat where "FORBIDDEN = 403"
definition INTERNAL_SERVER_ERROR :: nat where "INTERNAL_SERVER_ERROR = 500"

section \<open>Authorization middlewares: hasRole (unnamed/part_000), hasPermission (middleware/rate-limit.ts)\<close>

record JWTPayload =
  userId :: string
  email :: string

text \<open>The middlewares take \<^verbatim>\<open>string | string[]\<close>.\<close>

datatype names = Single string | Many "string list"

fun as_array :: "names \<Rightarrow> string list" where
  "as_array (Single n) = [n]"
| "as_array (Many ns) = ns"

text \<open>\<^verbatim>\<open>!req.user?.userId\<close>: no identity attached, or an empty user id.\<close>

definition no_user_id :: "JWTPayload option \<Rightarrow> bool" where
  "no_user_id u = (case u of None \<Rightarrow> True | Some p \<Rightarrow> userId p = [])"

text \<open>\<^verbatim>\<open>Array.prototype.join(", ")\<close>\<close>

fun join :: "string list \<Rightarrow> string" where
  "join [] = []"
| "join [n] = n"
| "join (n # ns) = n @ '', '' @ join ns"

definition denied :: "nat \<Rightarrow> string \<Rightarrow> unit envelope outcome" where
  "denied code msg = Respond code \<lparr>success = False, message = msg, data = None\<rparr>"

text \<open>
  \<^verbatim>\<open>prisma.userRole.findMany({where: {user_id}, include: {role: {select: {name}}}})\<close>:
  the user's assignments, each with the name of its role.
\<close>

definition role_of :: "database \<Rightarrow> string \<Rightarrow> Role option" where
  "role_of db rid = find (\<lambda>r. role_id r = rid) (roles db)"

definition userRole_findMany_role :: "string \<Rightarrow> (database, string list) async" where
  "userRole_findMany_role uid =
     prisma_call (\<lambda>db. (Inr (List.map_filter (\<lambda>ur. map_option role_name (role_of db (ur_role_id ur)))
                                (filter (\<lambda>ur. ur_user_id ur = uid) (user_roles db))), db))"

definition hasRole :: "names \<Rightarrow> JWTPayload option \<Rightarrow> (database, unit envelope outcome) async" where
  "hasRole rs user =
     (if no_user_id user then resolve (denied UNAUTHORIZED ''User not authenticated'')
      else try_catch
        (let allowedRoles = as_array rs in
         await (userRole_findMany_role (userId (the user))) (\<lambda>userRoleNames.
           let hasRequiredRole = list_ex (\<lambda>role. role \<in> set userRoleNames) allowedRoles in
           if \<not> hasRequiredRole
           then resolve (denied FORBIDDEN (''Access denied. Required role(s): '' @ join allowedRoles))
           else resolve Next))
        (\<lambda>_. resolve (denied INTERNAL_SERVER_ERROR ''Failed to check user role'')))"

text \<open>
  \<^verbatim>\<open>prisma.userRole.findMany\<close> including \<^verbatim>\<open>role.role_permissions.permission.name\<close>: for
  each assignment of the user, the permission names of the role; the two loops of the
  middleware add every one of them to \<^verbatim>\<open>userPermissions\<close>.
\<close>

definition permission_of :: "database \<Rightarrow> string \<Rightarrow> Permission option" where
  "permission_of db pid = find (\<lambda>p. permission_id p = pid) (permissions db)"

definition role_permission_names :: "database \<Rightarrow> string \<Rightarrow> string list" where
  "role_permission_names db rid =
     List.map_filter (\<lambda>rp. map_option permission_name (permission_of db (rp_permission_id rp)))
       (filter (\<lambda>rp. rp_role_id rp = rid) (role_permissions db))"

definition userRole_findMany_permissions :: "string \<Rightarrow> (database, string list list) async" where
  "userRole_findMany_permissions uid =
     prisma_call (\<lambda>db. (Inr (List.map_filter
                                (\<lambda>ur. map_option (\<lambda>r. role_permission_names db (role_id r))
                                         (role_of db (ur_role_id ur)))
                                (filter (\<lambda>ur. ur_user_id ur = uid) (user_roles db))), db))"

definition hasPermission :: "names \<Rightarrow> JWTPayload option \<Rightarrow> (database, unit envelope outcome) async" where
  "hasPermission ps user =
     (if no_user_id user then resolve (denied UNAUTHORIZED ''User not authenticated'')
      else try_catch
        (let requiredPermissions = as_array ps in
         await (userRole_findMany_permissions (userId (the user))) (\<lambda>userRoles.
           let userPermissions = set (concat userRoles);
               hasAllPermissions = list_all (\<lambda>permission. permission \<in> userPermissions) requiredPermissions in
           if \<not> hasAllPermissions
           then resolve (denied FORBIDDEN
                  (''Access denied. Required permission(s): '' @ join requiredPermissions))
           else resolve Next))
        (\<lambda>_. resolve (denied INTERNAL_SERVER_ERROR ''Failed to check user permissions'')))"

text \<open>
  The effective permission set of a user, read off the tables: the union of the
  permission names of all roles assigned to the user (spec, section 3).
\<close>

definition effective_permissions :: "database \<Rightarrow> string \<Rightarrow> string set" where
  "effective_permissions db uid =
     set [permission_name p.
            ur \<leftarrow> user_roles db, ur_user_id ur = uid,
            r \<leftarrow> roles db, role_id r = ur_role_id ur,
            rp \<leftarrow> role_permissions db, rp_role_id rp = role_id r,
            p \<leftarrow> permissions db, permission_id p = rp_permission_id rp]"

text \<open>The names of the roles assigned to a user, read off the tables.\<close>

definition role_names :: "database \<Rightarrow> string \<Rightarrow> string set" where
  "role_names db uid =
     set [role_name r.
            ur \<leftarrow> user_roles db, ur_user_id ur = uid,
            r \<leftarrow> roles db, role_id r = ur_role_id ur]"

text \<open>The primary keys of the tables the joins go through.\<close>

definition primary_keys :: "database \<Rightarrow> bool" where
  "primary_keys db \<longleftrightarrow>
     distinct (map role_id (roles db)) \<and> distinct (map permission_id (permissions db))"

text \<open>The coming round trip is answered.\<close>

definition answers :: "database \<Rightarrow> bool" where
  "answers db = (case faults db of [] \<Rightarrow> True | None # _ \<Rightarrow> True | Some _ # _ \<Rightarrow> False)"

text \<open>The database after one answered round trip of a query that writes nothing.\<close>

definition after_call :: "database \<Rightarrow> database" where
  "after_call db = (case faults db of [] \<Rightarrow> db | _ # fs \<Rightarrow> db\<lparr>faults := fs\<rparr>)"

section \<open>Token service: verifyAccessToken, verifyRefreshToken (lib/jwt.ts)\<close>

record env =
  JWT_SECRET :: string
  JWT_EXPIRES_IN :: string
  JWT_REFRESH_SECRET :: string
  JWT_REFRESH_EXPIRES_IN :: string

text \<open>
  \<^verbatim>\<open>jwt.verify(token, secret)\<close> and \<^verbatim>\<open>jwt.sign(payload, secret, {expiresIn})\<close> belong to the
  \<^verbatim>\<open>jsonwebtoken\<close> library and are parameters. \<^verbatim>\<open>verify\<close> is synchronous: it returns the
  decoded payload or throws (\<^verbatim>\<open>TokenExpiredError\<close>, \<^verbatim>\<open>JsonWebTokenError\<close> for a malformed
  token or a wrong signature, \<^verbatim>\<open>NotBeforeError\<close>).
\<close>

type_synonym jwt_verify = "string \<Rightarrow> string \<Rightarrow> exn + JWTPayload"
type_synonym jwt_sign = "JWTPayload \<Rightarrow> string \<Rightarrow> string \<Rightarrow> string"

definition verifyAccessToken :: "jwt_verify \<Rightarrow> env \<Rightarrow> string \<Rightarrow> exn + JWTPayload option" where
  "verifyAccessToken verify e token =
     (case verify token (JWT_SECRET e) of
        Inr decoded \<Rightarrow> Inr (Some decoded)
      | Inl _ \<Rightarrow> Inr None)"

definition verifyRefreshToken :: "jwt_verify \<Rightarrow> env \<Rightarrow> string \<Rightarrow> exn + JWTPayload option" where
  "verifyRefreshToken verify e token =
     (case verify token (JWT_REFRESH_SECRET e) of
        Inr decoded \<Rightarrow> Inr (Some decoded)
      | Inl _ \<Rightarrow> Inr None)"

record TokenPair =
  access_token :: string
  refresh_token :: string
  token_type :: string
  expires_in :: string

definition generateAccessToken :: "jwt_sign \<Rightarrow> env \<Rightarrow> JWTPayload \<Rightarrow> string" where
  "generateAccessToken sign e payload = sign payload (JWT_SECRET e) (JWT_EXPIRES_IN e)"

definition generateRefreshToken :: "jwt_sign \<Rightarrow> env \<Rightarrow> JWTPayload \<Rightarrow> string" where
  "generateRefreshToken sign e payload = sign payload (JWT_REFRESH_SECRET e) (JWT_REFRESH_EXPIRES_IN e)"

definition generateTokenPair :: "jwt_sign \<Rightarrow> env \<Rightarrow> JWTPayload \<Rightarrow> TokenPair" where
  "generateTokenPair sign e payload =
     \<lparr>access_token = generateAccessToken sign e payload,
      refresh_token = generateRefreshToken sign e payload,
      token_type = ''Bearer'',
      expires_in = JWT_EXPIRES_IN e\<rparr>"

section \<open>Login: login (modules/auth/auth.service.ts, modules/auth/auth.controller.ts)\<close>

record LoginInput =
  login_email :: string
  login_password :: string

text \<open>\<^verbatim>\<open>prisma.user.findUnique({where: {email}})\<close>\<close>

definition user_findUnique_email :: "string \<Rightarrow> (database, User option) async" where
  "user_findUnique_email e = prisma_call (\<lambda>db. (Inr (find (\<lambda>u. user_email u = e) (users db)), db))"

text \<open>
  \<^verbatim>\<open>bcrypt.compare(password, hash)\<close> is a parameter. The controller passes
  \<^verbatim>\<open>req.validated?.body\<close>, which is \<^verbatim>\<open>undefined\<close> (\<open>None\<close>) when no validator ran; reading
  \<^verbatim>\<open>data.email\<close> then throws a \<^verbatim>\<open>TypeError\<close>.
\<close>

definition login :: "(string \<Rightarrow> string \<Rightarrow> bool) \<Rightarrow> jwt_sign \<Rightarrow> env \<Rightarrow> LoginInput option
    \<Rightarrow> (database, TokenPair) async" where
  "login compare sign e input =
     (case input of
        None \<Rightarrow> throw (Error ''Cannot read properties of undefined (reading 'email')'')
      | Some d \<Rightarrow>
          await (user_findUnique_email (login_email d)) (\<lambda>user.
            case user of
              None \<Rightarrow> throw (Error ''Invalid credentials'')
            | Some u \<Rightarrow>
                let isValidPassword = compare (login_password d) (user_password u) in
                if \<not> isValidPassword then throw (Error ''Invalid credentials'')
                else resolve (generateTokenPair sign e \<lparr>userId = user_id u, email = user_email u\<rparr>)))"

text \<open>\<^verbatim>\<open>error instanceof Error ? error.message : fallback\<close>\<close>

fun message_of :: "exn \<Rightarrow> string \<Rightarrow> string" where
  "message_of (Error m) fallback = m"
| "message_of Thrown fallback = fallback"

definition login_controller :: "(string \<Rightarrow> string \<Rightarrow> bool) \<Rightarrow> jwt_sign \<Rightarrow> env \<Rightarrow> LoginInput option
    \<Rightarrow> (database, TokenPair envelope outcome) async" where
  "login_controller compare sign e validated_body =
     try_catch
       (await (login compare sign e validated_body) (\<lambda>tokens.
          resolve (Respond OK \<lparr>success = True, message = ''Login successful'', data = Some tokens\<rparr>)))
       (\<lambda>error.
          let msg = message_of error ''Failed to login'';
              statusCode = (if msg = ''Invalid credentials'' then UNAUTHORIZED else INTERNAL_SERVER_ERROR) in
          resolve (Respond statusCode \<lparr>success = False, message = msg, data = None\<rparr>))"

section \<open>Paginated lists: getAllUsers (middleware/auth.ts), getAllRoles (modules/roles/roles.service.ts)\<close>

text \<open>
  The list routes validate \<^verbatim>\<open>page\<close> and \<^verbatim>\<open>per_page\<close> before the services see them
  (\<^verbatim>\<open>listQuerySchema\<close>: page at least 1, per_page from 1 to 100), so the numbers are
  natural numbers here and \<^verbatim>\<open>skip\<close> is never negative; a fractional value, which the
  schema of the roles module would let through, is outside this model. Both fields are
  optional, and \<^verbatim>\<open>x || d\<close> replaces a missing or zero value by the default.
\<close>

record ListParams =
  page :: "nat option"
  per_page :: "nat option"

fun or_default :: "nat option \<Rightarrow> nat \<Rightarrow> nat" where
  "or_default None d = d"
| "or_default (Some 0) d = d"
| "or_default (Some n) d = n"

record PaginationMeta =
  meta_total :: nat
  meta_page :: nat
  meta_per_page :: nat
  meta_total_pages :: int
  meta_has_next_page :: bool
  meta_has_prev_page :: bool

text \<open>The columns of \<^verbatim>\<open>select\<close>: a user without the password hash.\<close>

record UserRow =
  row_id :: string
  row_name :: string
  row_email :: string
  row_created_at :: int

definition select_user :: "User \<Rightarrow> UserRow" where
  "select_user u = \<lparr>row_id = user_id u, row_name = user_name u, row_email = user_email u,
                    row_created_at = user_created_at u\<rparr>"

text \<open>
  \<^verbatim>\<open>orderBy: {created_at: "desc"}\<close>; rows created at the same instant keep the order of
  the table. \<^verbatim>\<open>findMany({skip, take, orderBy})\<close> drops \<^verbatim>\<open>skip\<close> rows of the ordered
  table and returns at most \<^verbatim>\<open>take\<close> of the rest.
\<close>

definition order_desc :: "('a \<Rightarrow> int) \<Rightarrow> 'a list \<Rightarrow> 'a list" where
  "order_desc created_at rows = sort_key (\<lambda>r. - created_at r) rows"

definition user_count :: "(database, nat) async" where
  "user_count = prisma_call (\<lambda>db. (Inr (length (users db)), db))"

definition user_findMany :: "nat \<Rightarrow> nat \<Rightarrow> (database, UserRow list) async" where
  "user_findMany skip tk =
     prisma_call (\<lambda>db. (Inr (map select_user (take tk (drop skip (order_desc user_created_at (users db))))), db))"

definition getAllUsers :: "ListParams option \<Rightarrow> (database, UserRow list \<times> PaginationMeta) async" where
  "getAllUsers ps =
     (let params = (case ps of None \<Rightarrow> \<lparr>page = None, per_page = None\<rparr> | Some q \<Rightarrow> q);
          page = or_default (ListParams.page params) 1;
          per_page = or_default (ListParams.per_page params) 10;
          skip = (page - 1) * per_page in
      await user_count (\<lambda>total.
      await (user_findMany skip per_page) (\<lambda>users.
        let total_pages = \<lceil>real total / real per_page\<rceil>;
            has_next_page = (int page < total_pages);
            has_prev_page = (page > 1) in
        resolve (users, \<lparr>meta_total = total, meta_page = page, meta_per_page = per_page,
                         meta_total_pages = total_pages, meta_has_next_page = has_next_page,
                         meta_has_prev_page = has_prev_page\<rparr>))))"

text \<open>A role as the roles service returns it: with its permissions and the number of its users.\<close>

record RoleView =
  view_id :: string
  view_name :: string
  view_permissions :: "Permission list"
  view_users_count :: nat
  view_created_at :: int

definition role_permissions_of :: "database \<Rightarrow> string \<Rightarrow> Permission list" where
  "role_permissions_of db rid =
     List.map_filter (\<lambda>rp. permission_of db (rp_permission_id rp))
       (filter (\<lambda>rp. rp_role_id rp = rid) (role_permissions db))"

definition role_view :: "database \<Rightarrow> Role \<Rightarrow> RoleView" where
  "role_view db r =
     \<lparr>view_id = role_id r, view_name = role_name r,
      view_permissions = role_permissions_of db (role_id r),
      view_users_count = length (filter (\<lambda>ur. ur_role_id ur = role_id r) (user_roles db)),
      view_created_at = role_created_at r\<rparr>"

definition role_count :: "(database, nat) async" where
  "role_count = prisma_call (\<lambda>db. (Inr (length (roles db)), db))"

definition role_findMany :: "nat \<Rightarrow> nat \<Rightarrow> (database, RoleView list) async" where
  "role_findMany skip tk =
     prisma_call (\<lambda>db. (Inr (map (role_view db) (take tk (drop skip (order_desc role_created_at (roles db))))), db))"

definition getAllRoles :: "ListParams option \<Rightarrow> (database, RoleView list \<times> PaginationMeta) async" where
  "getAllRoles ps =
     (let params = (case ps of None \<Rightarrow> \<lparr>page = Some 1, per_page = Some 10\<rparr> | Some q \<Rightarrow> q);
          page = or_default (ListParams.page params) 1;
          per_page = or_default (ListParams.per_page params) 10;
          skip = (page - 1) * per_page in
      await role_count (\<lambda>total.
      await (role_findMany skip per_page) (\<lambda>roles.
        let total_pages = \<lceil>real total / real per_page\<rceil> in
        resolve (roles, \<lparr>meta_total = total, meta_page = page, meta_per_page = per_page,
                         meta_total_pages = total_pages, meta_has_next_page = (int page < total_pages),
                         meta_has_prev_page = (page > 1)\<rparr>))))"

text \<open>The page and the page size a list operation works with: the parameter, or its default.\<close>

definition requested_page :: "ListParams option \<Rightarrow> nat" where
  "requested_page ps = or_default (case ps of None \<Rightarrow> None | Some q \<Rightarrow> ListParams.page q) 1"

definition requested_per_page :: "ListParams option \<Rightarrow> nat" where
  "requested_per_page ps = or_default (case ps of None \<Rightarrow> None | Some q \<Rightarrow> ListParams.per_page q) 10"

section \<open>Assigning permissions to a role: assignPermissions (modules/roles/roles.service.ts)\<close>

text \<open>\<^verbatim>\<open>prisma.role.findUnique({where: {id}})\<close>\<close>

definition role_findUnique :: "string \<Rightarrow> (database, Role option) async" where
  "role_findUnique rid = prisma_call (\<lambda>db. (Inr (role_of db rid), db))"

text \<open>\<^verbatim>\<open>prisma.permission.findMany({where: {id: {in: ids}}})\<close>: the rows whose id is listed.\<close>

definition permission_findMany_in :: "string list \<Rightarrow> (database, Permission list) async" where
  "permission_findMany_in ids =
     prisma_call (\<lambda>db. (Inr (filter (\<lambda>p. permission_id p \<in> set ids) (permissions db)), db))"

text \<open>\<^verbatim>\<open>prisma.rolePermission.deleteMany({where: {role_id}})\<close>\<close>

definition rolePermission_deleteMany :: "string \<Rightarrow> (database, unit) async" where
  "rolePermission_deleteMany rid =
     prisma_call (\<lambda>db. (Inr (), db\<lparr>role_permissions := filter (\<lambda>rp. rp_role_id rp \<noteq> rid) (role_permissions db)\<rparr>))"

text \<open>
  \<^verbatim>\<open>prisma.rolePermission.createMany({data})\<close> is one INSERT statement: it adds all rows,
  or it throws and adds none when two of the resulting rows would share
  \<^verbatim>\<open>(role_id, permission_id)\<close>, the unique index of the table.
\<close>

definition rolePermission_createMany :: "RolePermission list \<Rightarrow> (database, unit) async" where
  "rolePermission_createMany rows =
     prisma_call (\<lambda>db.
       if distinct (role_permissions db @ rows)
       then (Inr (), db\<lparr>role_permissions := role_permissions db @ rows\<rparr>)
       else (Inl (Error ''Unique constraint failed on the fields: (`role_id`,`permission_id`)''), db))"

definition getRoleById :: "string \<Rightarrow> (database, RoleView) async" where
  "getRoleById rid =
     await (prisma_call (\<lambda>db. (Inr (map_option (role_view db) (role_of db rid)), db))) (\<lambda>role.
       case role of
         None \<Rightarrow> throw (Error ''Role not found'')
       | Some v \<Rightarrow> resolve v)"

definition assignPermissions :: "string \<Rightarrow> string list \<Rightarrow> (database, RoleView) async" where
  "assignPermissions roleId permission_ids =
     await (role_findUnique roleId) (\<lambda>role.
       case role of
         None \<Rightarrow> throw (Error ''Role not found'')
       | Some _ \<Rightarrow>
           await (permission_findMany_in permission_ids) (\<lambda>permissions.
             if length permissions \<noteq> length permission_ids
             then throw (Error ''One or more permissions not found'')
             else
               await (rolePermission_deleteMany roleId) (\<lambda>_.
               await (rolePermission_createMany
                        (map (\<lambda>permissionId. \<lparr>rp_role_id = roleId, rp_permission_id = permissionId\<rparr>)
                             permission_ids)) (\<lambda>_.
                 getRoleById roleId))))"

text \<open>The permission ids a role is associated with.\<close>

definition assigned :: "database \<Rightarrow> string \<Rightarrow> string list" where
  "assigned db rid = map rp_permission_id (filter (\<lambda>rp. rp_role_id rp = rid) (role_permissions db))"

text \<open>
  The database after the permissions of a role were replaced: the rows of the role are
  gone and one row per given id is appended.
\<close>

definition replaced :: "database \<Rightarrow> string \<Rightarrow> string list \<Rightarrow> database" where
  "replaced db rid ids =
     db\<lparr>role_permissions := filter (\<lambda>rp. rp_role_id rp \<noteq> rid) (role_permissions db) @
                             map (\<lambda>p. \<lparr>rp_role_id = rid, rp_permission_id = p\<rparr>) ids\<rparr>"

section \<open>Request validation: zodValidator (modules/health/health.route.ts)\<close>

text \<open>
  A Zod schema is used through \<^verbatim>\<open>safeParse\<close> only: it returns the issues (each a path
  and a message) or the parsed, coerced data. \<open>'v\<close> is the type of JSON values.
\<close>

record ZodIssue =
  issue_path :: "string list"
  issue_message :: string

type_synonym 'v schema = "'v \<Rightarrow> ZodIssue list + 'v"

datatype location = params | query | body | headers

record 'v ZodValidation =
  body_schema :: "'v schema option"
  query_schema :: "'v schema option"
  params_schema :: "'v schema option"
  headers_schema :: "'v schema option"

fun schema_at :: "'v ZodValidation \<Rightarrow> location \<Rightarrow> 'v schema option" where
  "schema_at validation params = params_schema validation"
| "schema_at validation query = query_schema validation"
| "schema_at validation body = body_schema validation"
| "schema_at validation headers = headers_schema validation"

record 'v ValidatedData =
  validated_body :: "'v option"
  validated_query :: "'v option"
  validated_params :: "'v option"
  validated_headers :: "'v option"

record 'v request =
  req_body :: 'v
  req_query :: 'v
  req_params :: 'v
  req_headers :: 'v
  req_validated :: "'v ValidatedData option"

text \<open>An entry of \<^verbatim>\<open>issues\<close>: \<^verbatim>\<open>{where, path, message}\<close>.\<close>

record issue =
  issue_where :: location
  path :: string
  msg :: string

text \<open>\<^verbatim>\<open>i.path.join(".")\<close>\<close>

fun join_dot :: "string list \<Rightarrow> string" where
  "join_dot [] = []"
| "join_dot [n] = n"
| "join_dot (n # ns) = n @ ''.'' @ join_dot ns"

text \<open>The variables the closure \<^verbatim>\<open>run\<close> writes: \<^verbatim>\<open>validated\<close>, \<^verbatim>\<open>issues\<close> and the request.\<close>

record 'v run_state =
  validated :: "'v ValidatedData"
  issues :: "issue list"
  req :: "'v request"

fun set_validated :: "location \<Rightarrow> 'v \<Rightarrow> 'v ValidatedData \<Rightarrow> 'v ValidatedData" where
  "set_validated params d v = v\<lparr>validated_params := Some d\<rparr>"
| "set_validated query d v = v\<lparr>validated_query := Some d\<rparr>"
| "set_validated body d v = v\<lparr>validated_body := Some d\<rparr>"
| "set_validated headers d v = v\<lparr>validated_headers := Some d\<rparr>"

definition run :: "'v ZodValidation \<Rightarrow> location \<Rightarrow> 'v \<Rightarrow> 'v run_state \<Rightarrow> 'v run_state" where
  "run validation wh val st =
     (case schema_at validation wh of
        None \<Rightarrow> st
      | Some schema \<Rightarrow>
          (case schema val of
             Inl errs \<Rightarrow>
               st\<lparr>issues := issues st @
                     map (\<lambda>i. \<lparr>issue_where = wh, path = join_dot (issue_path i), msg = issue_message i\<rparr>) errs\<rparr>
           | Inr d \<Rightarrow>
               let st' = st\<lparr>validated := set_validated wh d (validated st)\<rparr> in
               if wh = body then st'\<lparr>req := (req st')\<lparr>req_body := d\<rparr>\<rparr> else st'))"

text \<open>\<^verbatim>\<open>{ ...(req.validated ?? {}), ...validated }\<close>: a key of the new object wins.\<close>

definition or_else :: "'a option \<Rightarrow> 'a option \<Rightarrow> 'a option" where
  "or_else new old = (case new of Some x \<Rightarrow> Some x | None \<Rightarrow> old)"

definition spread :: "'v ValidatedData option \<Rightarrow> 'v ValidatedData \<Rightarrow> 'v ValidatedData" where
  "spread old new =
     (case old of
        None \<Rightarrow> new
      | Some prev \<Rightarrow> \<lparr>validated_body = or_else (validated_body new) (validated_body prev),
                   validated_query = or_else (validated_query new) (validated_query prev),
                   validated_params = or_else (validated_params new) (validated_params prev),
                   validated_headers = or_else (validated_headers new) (validated_headers prev)\<rparr>)"

text \<open>The body of the 422 response: \<^verbatim>\<open>{status, message, errors}\<close>.\<close>

datatype error_body = ErrorBody string string "issue list"

definition zodValidator :: "'v ZodValidation \<Rightarrow> 'v request \<Rightarrow> error_body outcome \<times> 'v request" where
  "zodValidator validation r =
     (let st0 = \<lparr>validated = \<lparr>validated_body = None, validated_query = None,
                               validated_params = None, validated_headers = None\<rparr>,
                 issues = [], req = r\<rparr>;
          st1 = run validation params (req_params (req st0)) st0;
          st2 = run validation query (req_query (req st1)) st1;
          st3 = run validation body (req_body (req st2)) st2;
          st4 = run validation headers (req_headers (req st3)) st3 in
      if length (issues st4) > 0
      then (Respond 422 (ErrorBody ''error'' ''Validation error'' (issues st4)), req st4)
      else (Next, (req st4)\<lparr>req_validated := Some (spread (req_validated (req st4)) (validated st4))\<rparr>))"

text \<open>
  The issues one section contributes, read off its schema and its raw value, with no
  reference to the validator: every issue of the schema in the order Zod reports them,
  under the name of the section, the segments of its path written one after the other
  with a dot before every segment but the first.
\<close>

definition dotted :: "string list \<Rightarrow> string" where
  "dotted segments =
     (case segments of [] \<Rightarrow> [] | s # rest \<Rightarrow> s @ concat (map (\<lambda>t. ''.'' @ t) rest))"

definition issues_of :: "location \<Rightarrow> 'v schema option \<Rightarrow> 'v \<Rightarrow> issue list" where
  "issues_of wh sch val =
     (case sch of
        None \<Rightarrow> []
      | Some schema \<Rightarrow>
          (case schema val of
             Inl errs \<Rightarrow> map (\<lambda>i. \<lparr>issue_where = wh, path = dotted (issue_path i), msg = issue_message i\<rparr>) errs
           | Inr _ \<Rightarrow> []))"

section \<open>Rate limiter: createRateLimiter (middleware/rate-limit.ts)\<close>

subsection \<open>The Redis commands the limiter issues\<close>

text \<open>
  A sorted set maps members to scores. The limiter's members are the strings
  \<^verbatim>\<open>`${now}:${Math.random()}`\<close>, modelled by the pair of the two numbers (the random
  draw is a number chosen by the environment). A key may carry an expiry, the time in
  milliseconds at which Redis drops it. Every command runs at the time \<open>now\<close> the
  middleware read from \<^verbatim>\<open>Date.now()\<close>: the clock of Redis and the clock of the process
  agree, and a request takes no time.
\<close>

type_synonym member = "int \<times> nat"

record zset =
  entries :: "(member \<times> int) list"
  expire_at :: "int option"

text \<open>
  \<open>client\<close>: \<^verbatim>\<open>redisClient\<close> is not \<^verbatim>\<open>null\<close>. \<open>redis_faults\<close> is the fate of the coming
  commands, as for the database.
\<close>

record redis =
  client :: bool
  keys :: "string \<Rightarrow> zset option"
  redis_faults :: "exn option list"

definition getRedis :: "(redis, unit) async" where
  "getRedis r =
     (if \<not> client r then (Inl (Error ''Redis client not initialized. Call initRedis() first.''), r)
      else (Inr (), r))"

text \<open>A key whose expiry has passed is gone before any command sees it.\<close>

definition purge :: "int \<Rightarrow> string \<Rightarrow> redis \<Rightarrow> redis" where
  "purge now key r =
     (case keys r key of
        None \<Rightarrow> r
      | Some z \<Rightarrow>
          (case expire_at z of
             None \<Rightarrow> r
           | Some t \<Rightarrow> if t \<le> now then r\<lparr>keys := (keys r)(key := None)\<rparr> else r))"

definition redis_call :: "int \<Rightarrow> string \<Rightarrow> (redis, 'a) async \<Rightarrow> (redis, 'a) async" where
  "redis_call now key q r =
     (case redis_faults r of
        [] \<Rightarrow> q (purge now key r)
      | None # fs \<Rightarrow> q (purge now key (r\<lparr>redis_faults := fs\<rparr>))
      | Some e # fs \<Rightarrow> (Inl e, r\<lparr>redis_faults := fs\<rparr>))"

text \<open>\<^verbatim>\<open>ZREMRANGEBYSCORE key min max\<close>: both bounds inclusive; an emptied set is deleted.\<close>

definition zRemRangeByScore :: "int \<Rightarrow> string \<Rightarrow> int \<Rightarrow> int \<Rightarrow> (redis, int) async" where
  "zRemRangeByScore now key lo hi =
     redis_call now key (\<lambda>r.
       case keys r key of
         None \<Rightarrow> (Inr 0, r)
       | Some z \<Rightarrow>
           let kept = filter (\<lambda>e. \<not> (lo \<le> snd e \<and> snd e \<le> hi)) (entries z) in
           (Inr (int (length (entries z)) - int (length kept)),
            r\<lparr>keys := (keys r)(key := (if kept = [] then None else Some (z\<lparr>entries := kept\<rparr>)))\<rparr>))"

definition zCard :: "int \<Rightarrow> string \<Rightarrow> (redis, int) async" where
  "zCard now key =
     redis_call now key (\<lambda>r.
       (Inr (case keys r key of None \<Rightarrow> 0 | Some z \<Rightarrow> int (length (entries z))), r))"

text \<open>\<^verbatim>\<open>PTTL key\<close>: -2 for a missing key, -1 for a key without expiry.\<close>

definition pTTL :: "int \<Rightarrow> string \<Rightarrow> (redis, int) async" where
  "pTTL now key =
     redis_call now key (\<lambda>r.
       (Inr (case keys r key of
               None \<Rightarrow> - 2
             | Some z \<Rightarrow> (case expire_at z of None \<Rightarrow> - 1 | Some t \<Rightarrow> t - now)), r))"

text \<open>\<^verbatim>\<open>ZADD key score member\<close>: a member already in the set only has its score replaced.\<close>

fun zadd_entry :: "member \<Rightarrow> int \<Rightarrow> (member \<times> int) list \<Rightarrow> (member \<times> int) list" where
  "zadd_entry m sc [] = [(m, sc)]"
| "zadd_entry m sc (e # es) = (if fst e = m then (m, sc) # es else e # zadd_entry m sc es)"

definition zAdd :: "int \<Rightarrow> string \<Rightarrow> int \<Rightarrow> member \<Rightarrow> (redis, unit) async" where
  "zAdd now key sc m =
     redis_call now key (\<lambda>r.
       let z = (case keys r key of None \<Rightarrow> \<lparr>entries = [], expire_at = None\<rparr> | Some z \<Rightarrow> z) in
       (Inr (), r\<lparr>keys := (keys r)(key \<mapsto> z\<lparr>entries := zadd_entry m sc (entries z)\<rparr>)\<rparr>))"

text \<open>\<^verbatim>\<open>EXPIRE key seconds\<close>\<close>

definition expire :: "int \<Rightarrow> string \<Rightarrow> int \<Rightarrow> (redis, bool) async" where
  "expire now key seconds =
     redis_call now key (\<lambda>r.
       case keys r key of
         None \<Rightarrow> (Inr False, r)
       | Some z \<Rightarrow> (Inr True, r\<lparr>keys := (keys r)(key \<mapsto> z\<lparr>expire_at := Some (now + seconds * 1000)\<rparr>)\<rparr>))"

subsection \<open>The middleware\<close>

text \<open>
  \<open>'r\<close> is the request, which the limiter reads through \<^verbatim>\<open>keyGenerator\<close> only. The
  options are the merged ones (\<^verbatim>\<open>{...defaultOptions, ...options}\<close>). The two \<^verbatim>\<open>skip\<close>
  options wrap \<^verbatim>\<open>res.send\<close> for a later handler and do not change what the middleware
  itself answers; they are left out. The fields \<open>maxRequests\<close> and \<open>limitMessage\<close> are
  the options \<^verbatim>\<open>max\<close> and \<^verbatim>\<open>message\<close>.
\<close>

record 'r RateLimitOptions =
  windowMs :: int
  maxRequests :: int
  limitMessage :: string
  keyGenerator :: "'r \<Rightarrow> string"

definition defaultOptions :: "('r \<Rightarrow> string) \<Rightarrow> 'r RateLimitOptions" where
  "defaultOptions by_ip =
     \<lparr>windowMs = 60 * 1000, maxRequests = 100,
      limitMessage = ''Too many requests, please try again later.'', keyGenerator = by_ip\<rparr>"

text \<open>\<^verbatim>\<open>Math.ceil(ms / 1000)\<close>\<close>

definition ceil_seconds :: "int \<Rightarrow> int" where
  "ceil_seconds ms = \<lceil>real_of_int ms / 1000\<rceil>"

text \<open>
  The answer of the limiter: the headers it set, each with the number whose decimal
  notation is sent, and either \<^verbatim>\<open>next()\<close> or the 429 response \<^verbatim>\<open>{message, retryAfter}\<close>.
\<close>

datatype limit_body = LimitBody string int

type_synonym limited = "(string \<times> int) list \<times> limit_body outcome"

text \<open>\<^verbatim>\<open>`rate-limit:${opts.keyGenerator(req)}`\<close>\<close>

definition limiter_key :: "'r RateLimitOptions \<Rightarrow> 'r \<Rightarrow> string" where
  "limiter_key opts request = ''rate-limit:'' @ keyGenerator opts request"

definition limiter_body :: "'r RateLimitOptions \<Rightarrow> 'r \<Rightarrow> int \<Rightarrow> nat \<Rightarrow> (redis, limited) async" where
  "limiter_body opts request now rnd =
     await getRedis (\<lambda>_.
       let key = limiter_key opts request;
           windowStart = now - windowMs opts in
       await (zRemRangeByScore now key 0 windowStart) (\<lambda>_.
       await (zCard now key) (\<lambda>requestCount.
         if requestCount \<ge> maxRequests opts
         then
           await (pTTL now key) (\<lambda>ttl.
             let resetTime = (if ttl > 0 then ceil_seconds ttl else ceil_seconds (windowMs opts)) in
             resolve ([(''X-RateLimit-Limit'', maxRequests opts), (''X-RateLimit-Remaining'', 0),
                       (''X-RateLimit-Reset'', resetTime), (''Retry-After'', resetTime)],
                      Respond 429 (LimitBody (limitMessage opts) resetTime)))
         else
           await (zAdd now key now (now, rnd)) (\<lambda>_.
           await (expire now key (ceil_seconds (windowMs opts))) (\<lambda>_.
             resolve ([(''X-RateLimit-Limit'', maxRequests opts),
                       (''X-RateLimit-Remaining'', maxRequests opts - requestCount - 1),
                       (''X-RateLimit-Reset'', ceil_seconds (windowMs opts))],
                      Next))))))"

text \<open>
  The \<^verbatim>\<open>catch\<close> block logs and calls \<^verbatim>\<open>next()\<close>. No header is set before the last
  command of either branch has returned, so a request that fails carries none.
\<close>

definition createRateLimiter :: "'r RateLimitOptions \<Rightarrow> 'r \<Rightarrow> int \<Rightarrow> nat \<Rightarrow> (redis, limited) async" where
  "createRateLimiter opts request now rnd =
     try_catch (limiter_body opts request now rnd) (\<lambda>error. resolve ([], Next))"

text \<open>The same client sending one request after the other: the answers, in order.\<close>

fun serve :: "'r RateLimitOptions \<Rightarrow> 'r \<Rightarrow> (int \<times> nat) list \<Rightarrow> redis \<Rightarrow> limited list \<times> redis" where
  "serve opts request [] r = ([], r)"
| "serve opts request ((now, rnd) # rest) r =
     (case createRateLimiter opts request now rnd r of
        (Inl _, r') \<Rightarrow> ([], r')
      | (Inr a, r') \<Rightarrow> (case serve opts request rest r' of (as, r'') \<Rightarrow> (a # as, r'')))"

text \<open>A Redis that answers every command.\<close>

definition healthy :: "redis \<Rightarrow> bool" where
  "healthy r \<longleftrightarrow> client r \<and> redis_faults r = []"

text \<open>The timestamps recorded for a key that a request at \<open>now\<close> counts.\<close>

definition counted :: "int \<Rightarrow> int \<Rightarrow> string \<Rightarrow> redis \<Rightarrow> (member \<times> int) list" where
  "counted now window key r =
     filter (\<lambda>e. \<not> (0 \<le> snd e \<and> snd e \<le> now - window))
       (case keys (purge now key r) key of None \<Rightarrow> [] | Some z \<Rightarrow> entries z)"

text \<open>The timestamps a key holds, counted or not.\<close>

definition held :: "string \<Rightarrow> redis \<Rightarrow> (member \<times> int) list" where
  "held key r = (case keys r key of None \<Rightarrow> [] | Some z \<Rightarrow> entries z)"

text \<open>
  What a key holds after the requests \<open>done\<close> were admitted one after the other, the
  key being absent before: one entry per request, and the expiry the last one set.
\<close>

definition stamp :: "int \<times> nat \<Rightarrow> member \<times> int" where
  "stamp q = (q, fst q)"

definition recorded :: "int \<Rightarrow> (int \<times> nat) list \<Rightarrow> zset option" where
  "recorded window done =
     (if done = [] then None
      else Some \<lparr>entries = map stamp done,
                 expire_at = Some (fst (last done) + ceil_seconds window * 1000)\<rparr>)"

text \<open>All the given requests fall into one window: any two are less than a window apart.\<close>

definition one_window :: "int \<Rightarrow> (int \<times> nat) list \<Rightarrow> bool" where
  "one_window window qs = list_all (\<lambda>a. list_all (\<lambda>b. fst a - fst b < window) qs) qs"

text \<open>
  None of the coming \<open>n\<close> commands throws. A request issues three commands when it is
  rejected (\<^verbatim>\<open>zRemRangeByScore\<close>, \<^verbatim>\<open>zCard\<close>, \<^verbatim>\<open>pTTL\<close>) and four when it is let through
  (\<^verbatim>\<open>zRemRangeByScore\<close>, \<^verbatim>\<open>zCard\<close>, \<^verbatim>\<open>zAdd\<close>, \<^verbatim>\<open>expire\<close>).
\<close>

fun quiet :: "nat \<Rightarrow> exn option list \<Rightarrow> bool" where
  "quiet 0 fs = True"
| "quiet (Suc n) [] = True"
| "quiet (Suc n) (None # fs) = quiet n fs"
| "quiet (Suc n) (Some e # fs) = False"

definition commands_issued :: "'r RateLimitOptions \<Rightarrow> 'r \<Rightarrow> int \<Rightarrow> redis \<Rightarrow> nat" where
  "commands_issued opts request now r =
     (if maxRequests opts \<le> int (length (counted now (windowMs opts) (limiter_key opts request) r))
      then 3 else 4)"

text \<open>The same store behind a connection that never fails.\<close>

definition calm :: "redis \<Rightarrow> redis" where
  "calm r = r\<lparr>redis_faults := []\<rparr>"

section \<open>Example data\<close>

definition alice :: JWTPayload where
  "alice = \<lparr>userId = ''u1'', email = ''alice@example.com''\<rparr>"

definition bob :: JWTPayload where
  "bob = \<lparr>userId = ''u2'', email = ''bob@example.com''\<rparr>"

definition carol :: JWTPayload where
  "carol = \<lparr>userId = ''u3'', email = ''carol@example.com''\<rparr>"

text \<open>A decoded token whose user id is the empty string.\<close>

definition nameless :: JWTPayload where
  "nameless = \<lparr>userId = [], email = ''nobody@example.com''\<rparr>"

definition demo_db :: database where
  "demo_db =
     \<lparr>users = [\<lparr>user_id = ''u1'', user_name = ''Alice'', user_email = ''alice@example.com'',
                 user_password = ''hash-of-secret'', user_created_at = 100\<rparr>,
               \<lparr>user_id = ''u2'', user_name = ''Bob'', user_email = ''bob@example.com'',
                 user_password = ''hash-of-hunter2'', user_created_at = 200\<rparr>,
               \<lparr>user_id = ''u3'', user_name = ''Carol'', user_email = ''carol@example.com'',
                 user_password = ''hash-of-letmein'', user_created_at = 300\<rparr>],
      roles = [\<lparr>role_id = ''r1'', role_name = ''admin'', role_created_at = 10\<rparr>,
               \<lparr>role_id = ''r2'', role_name = ''editor'', role_created_at = 20\<rparr>],
      permissions = [\<lparr>permission_id = ''p1'', permission_name = ''users.read''\<rparr>,
                     \<lparr>permission_id = ''p2'', permission_name = ''users.create''\<rparr>],
      user_roles = [\<lparr>ur_user_id = ''u1'', ur_role_id = ''r1''\<rparr>, \<lparr>ur_user_id = ''u1'', ur_role_id = ''r2''\<rparr>,
                    \<lparr>ur_user_id = ''u2'', ur_role_id = ''r1''\<rparr>],
      role_permissions = [\<lparr>rp_role_id = ''r1'', rp_permission_id = ''p1''\<rparr>,
                          \<lparr>rp_role_id = ''r2'', rp_permission_id = ''p2''\<rparr>],
      faults = []\<rparr>"

text \<open>The same tables behind a connection that is down.\<close>

definition unreachable :: "database \<Rightarrow> database" where
  "unreachable db = db\<lparr>faults := [Some (Error ''Can't reach database server'')]\<rparr>"

definition demo_env :: env where
  "demo_env = \<lparr>JWT_SECRET = ''access-secret'', JWT_EXPIRES_IN = ''7d'',
               JWT_REFRESH_SECRET = ''refresh-secret'', JWT_REFRESH_EXPIRES_IN = ''30d''\<rparr>"

definition demo_sign :: jwt_sign where
  "demo_sign payload secret expiresIn = userId payload @ ''.'' @ secret @ ''.'' @ expiresIn"

definition demo_compare :: "string \<Rightarrow> string \<Rightarrow> bool" where
  "demo_compare password hash = (hash = ''hash-of-'' @ password)"

text \<open>
  A stand-in for \<^verbatim>\<open>jwt.verify\<close>: one token is valid under the access secret, one has
  expired, every other string is malformed.
\<close>

definition demo_verify :: jwt_verify where
  "demo_verify token secret =
     (if token = ''expired'' then Inl (Error ''jwt expired'')
      else if token = ''token-of-alice'' \<and> secret = ''access-secret'' then Inr alice
      else if token = ''token-of-alice'' then Inl (Error ''invalid signature'')
      else Inl (Error ''jwt malformed''))"

text \<open>
  A request whose sections are flat objects of string fields, and schemas in the manner
  of \<^verbatim>\<open>z.object\<close>: every listed key is required, unknown keys are stripped.
\<close>

type_synonym fields = "(string \<times> string) list"

definition required :: "string \<Rightarrow> fields \<Rightarrow> ZodIssue list" where
  "required k v = (case map_of v k of None \<Rightarrow> [\<lparr>issue_path = [k], issue_message = ''Required''\<rparr>] | Some _ \<Rightarrow> [])"

definition object_schema :: "string list \<Rightarrow> fields schema" where
  "object_schema ks v =
     (let errs = concat (map (\<lambda>k. required k v) ks) in
      if errs = [] then Inr (filter (\<lambda>f. fst f \<in> set ks) v) else Inl errs)"

definition demo_validation :: "fields ZodValidation" where
  "demo_validation =
     \<lparr>body_schema = Some (object_schema [''email'']),
      query_schema = Some (object_schema [''page'', ''per_page'']),
      params_schema = Some (object_schema [''id'']),
      headers_schema = None\<rparr>"

definition demo_request :: "fields request" where
  "demo_request =
     \<lparr>req_body = [(''email'', ''bob@example.com''), (''is_admin'', ''true'')],
      req_query = [],
      req_params = [],
      req_headers = [(''authorization'', ''Bearer token-of-alice'')],
      req_validated = None\<rparr>"

text \<open>
  A validation with a schema for every section, the one of the body reporting a nested
  path; a request that fails all four, and one that passes all four.
\<close>

definition address_schema :: "fields schema" where
  "address_schema v =
     (case map_of v ''city'' of
        None \<Rightarrow> Inl [\<lparr>issue_path = [''address'', ''city''], issue_message = ''Required''\<rparr>]
      | Some _ \<Rightarrow> Inr v)"

definition strict_validation :: "fields ZodValidation" where
  "strict_validation =
     \<lparr>body_schema = Some address_schema,
      query_schema = Some (object_schema [''page'', ''per_page'']),
      params_schema = Some (object_schema [''id'']),
      headers_schema = Some (object_schema [''authorization''])\<rparr>"

definition bare_request :: "fields request" where
  "bare_request = \<lparr>req_body = [], req_query = [], req_params = [], req_headers = [], req_validated = None\<rparr>"

definition full_request :: "fields request" where
  "full_request =
     \<lparr>req_body = [(''city'', ''Banda Aceh'')],
      req_query = [(''page'', ''1''), (''per_page'', ''10'')],
      req_params = [(''id'', ''42'')],
      req_headers = [(''authorization'', ''Bearer token-of-alice''), (''accept'', ''*/*'')],
      req_validated = None\<rparr>"

text \<open>A connection that is lost after three round trips.\<close>

definition flaky_db :: database where
  "flaky_db = demo_db\<lparr>faults := [None, None, None, Some (Error ''Connection terminated unexpectedly'')]\<rparr>"

text \<open>
  A Redis without keys, a limiter of two requests a minute keyed by the client address,
  a connection that is lost after two commands, and a server that refuses the connection.
\<close>

definition fresh_redis :: redis where
  "fresh_redis = \<lparr>client = True, keys = (\<lambda>_. None), redis_faults = []\<rparr>"

definition demo_options :: "string RateLimitOptions" where
  "demo_options = \<lparr>windowMs = 60 * 1000, maxRequests = 2,
                    limitMessage = ''Too many requests. Please slow down.'', keyGenerator = (\<lambda>ip. ip)\<rparr>"

definition lost_redis :: redis where
  "lost_redis = fresh_redis\<lparr>redis_faults := [None, None, Some (Error ''Socket closed unexpectedly'')]\<rparr>"

definition down_redis :: redis where
  "down_redis = fresh_redis\<lparr>redis_faults := [Some (Error ''connect ECONNREFUSED 127.0.0.1:6379'')]\<rparr>"

text \<open>
  A Redis in which the client 10.0.0.7 already has the two requests of its window
  recorded, and the same store behind a connection that is lost after three commands.
\<close>

definition busy_redis :: redis where
  "busy_redis =
     \<lparr>client = True,
      keys = (\<lambda>_. None)(''rate-limit:10.0.0.7'' \<mapsto>
               \<lparr>entries = [((1000, 1), 1000), ((2000, 2), 2000)], expire_at = Some 62000\<rparr>),
      redis_faults = []\<rparr>"

definition fading :: "redis \<Rightarrow> redis" where
  "fading r = r\<lparr>redis_faults := [None, None, None, Some (Error ''Socket closed unexpectedly'')]\<rparr>"

section \<open>The Prisma client: answered and failed round trips\<close>

lemma after_call_tables [simp]:
  "users (after_call db) = users db" "roles (after_call db) = roles db"
  "permissions (after_call db) = permissions db" "user_roles (after_call db) = user_roles db"
  "role_permissions (after_call db) = role_permissions db"
  by (simp_all add: after_call_def split: list.splits)

lemma prisma_call_answers:
  assumes "answers db"
  shows "prisma_call q db = q (after_call db)"
proof (cases "faults db")
  case Nil
  then show ?thesis by (simp add: prisma_call_def after_call_def)
next
  case (Cons a fs)
  with assms have "a = None" by (simp add: answers_def split: option.splits)
  with Cons show ?thesis by (simp add: prisma_call_def after_call_def)
qed

lemma prisma_call_throws:
  assumes "\<not> answers db"
  shows "\<exists>e db'. prisma_call q db = (Inl e, db')"
proof (cases "faults db")
  case Nil
  with assms show ?thesis by (simp add: answers_def)
next
  case (Cons a fs)
  with assms obtain e where "a = Some e" by (cases a) (simp_all add: answers_def)
  with Cons have "prisma_call q db = (Inl e, db\<lparr>faults := fs\<rparr>)" by (simp add: prisma_call_def)
  then show ?thesis by (intro exI)
qed

lemma prisma_call_healthy:
  "faults db = [] \<Longrightarrow> prisma_call q db = q db"
  by (simp add: prisma_call_def)

lemma demo_db_ok: "answers demo_db" "primary_keys demo_db"
  by (simp_all add: answers_def primary_keys_def demo_db_def)

lemma alice_has_id: "\<not> no_user_id (Some alice)"
  by (simp add: no_user_id_def alice_def)

section \<open>Authorization\<close>

lemma find_key_iff:
  "distinct (map f xs) \<Longrightarrow> find (\<lambda>x. f x = k) xs = Some x \<longleftrightarrow> x \<in> set xs \<and> f x = k"
  by (induction xs) (auto simp: rev_image_eqI)

lemma role_of_iff:
  "primary_keys db \<Longrightarrow> role_of db rid = Some r \<longleftrightarrow> r \<in> set (roles db) \<and> role_id r = rid"
  unfolding primary_keys_def role_of_def by (simp add: find_key_iff)

lemma permission_of_iff:
  "primary_keys db \<Longrightarrow> permission_of db pid = Some p \<longleftrightarrow> p \<in> set (permissions db) \<and> permission_id p = pid"
  unfolding primary_keys_def permission_of_def by (simp add: find_key_iff)

lemma set_map_filter: "set (List.map_filter f xs) = {y. \<exists>x \<in> set xs. f x = Some y}"
  by (induction xs) (auto simp: List.map_filter_simps split: option.splits)

lemma set_role_permission_names:
  assumes "primary_keys db"
  shows "set (role_permission_names db rid) =
         {permission_name p | p rp. rp \<in> set (role_permissions db) \<and> rp_role_id rp = rid \<and>
            p \<in> set (permissions db) \<and> permission_id p = rp_permission_id rp}"
  unfolding role_permission_names_def set_map_filter
  using permission_of_iff [OF assms] by auto

lemma effective_permissions_joins:
  "effective_permissions db uid =
     {permission_name p | p ur rp r.
        ur \<in> set (user_roles db) \<and> ur_user_id ur = uid \<and>
        r \<in> set (roles db) \<and> role_id r = ur_role_id ur \<and>
        rp \<in> set (role_permissions db) \<and> rp_role_id rp = role_id r \<and>
        p \<in> set (permissions db) \<and> permission_id p = rp_permission_id rp}"
proof (rule set_eqI)
  fix n
  have "n \<in> effective_permissions db uid \<longleftrightarrow>
        (\<exists>ur. ur \<in> set (user_roles db) \<and> ur_user_id ur = uid \<and>
          (\<exists>r. r \<in> set (roles db) \<and> role_id r = ur_role_id ur) \<and>
          (\<exists>rp. rp \<in> set (role_permissions db) \<and> rp_role_id rp = ur_role_id ur \<and>
             (\<exists>p. p \<in> set (permissions db) \<and> permission_id p = rp_permission_id rp \<and>
                  n = permission_name p)))"
    unfolding effective_permissions_def by (simp add: Bex_def disjoint_iff)
  also have "\<dots> \<longleftrightarrow>
        (\<exists>p ur rp r. n = permission_name p \<and>
           ur \<in> set (user_roles db) \<and> ur_user_id ur = uid \<and>
           r \<in> set (roles db) \<and> role_id r = ur_role_id ur \<and>
           rp \<in> set (role_permissions db) \<and> rp_role_id rp = role_id r \<and>
           p \<in> set (permissions db) \<and> permission_id p = rp_permission_id rp)"
  proof
    assume "\<exists>ur. ur \<in> set (user_roles db) \<and> ur_user_id ur = uid \<and>
          (\<exists>r. r \<in> set (roles db) \<and> role_id r = ur_role_id ur) \<and>
          (\<exists>rp. rp \<in> set (role_permissions db) \<and> rp_role_id rp = ur_role_id ur \<and>
             (\<exists>p. p \<in> set (permissions db) \<and> permission_id p = rp_permission_id rp \<and>
                  n = permission_name p))"
    then obtain ur r rp p where "ur \<in> set (user_roles db)" "ur_user_id ur = uid"
      "r \<in> set (roles db)" "role_id r = ur_role_id ur"
      "rp \<in> set (role_permissions db)" "rp_role_id rp = ur_role_id ur"
      "p \<in> set (permissions db)" "permission_id p = rp_permission_id rp" "n = permission_name p"
      by (elim exE conjE)
    then show "\<exists>p ur rp r. n = permission_name p \<and>
           ur \<in> set (user_roles db) \<and> ur_user_id ur = uid \<and>
           r \<in> set (roles db) \<and> role_id r = ur_role_id ur \<and>
           rp \<in> set (role_permissions db) \<and> rp_role_id rp = role_id r \<and>
           p \<in> set (permissions db) \<and> permission_id p = rp_permission_id rp"
      by (intro exI [of _ p] exI [of _ ur] exI [of _ rp] exI [of _ r]) simp
  next
    assume "\<exists>p ur rp r. n = permission_name p \<and>
           ur \<in> set (user_roles db) \<and> ur_user_id ur = uid \<and>
           r \<in> set (roles db) \<and> role_id r = ur_role_id ur \<and>
           rp \<in> set (role_permissions db) \<and> rp_role_id rp = role_id r \<and>
           p \<in> set (permissions db) \<and> permission_id p = rp_permission_id rp"
    then obtain ur r rp p where f: "ur \<in> set (user_roles db)" "ur_user_id ur = uid"
      "r \<in> set (roles db)" "role_id r = ur_role_id ur"
      "rp \<in> set (role_permissions db)" "rp_role_id rp = role_id r"
      "p \<in> set (permissions db)" "permission_id p = rp_permission_id rp" "n = permission_name p"
      by (elim exE conjE)
    have a: "\<exists>r. r \<in> set (roles db) \<and> role_id r = ur_role_id ur" using f(3,4) by (intro exI conjI)
    have b: "\<exists>p. p \<in> set (permissions db) \<and> permission_id p = rp_permission_id rp \<and> n = permission_name p"
      using f(7,8,9) by (intro exI conjI)
    have c: "rp_role_id rp = ur_role_id ur" using f(4,6) by simp
    show "\<exists>ur. ur \<in> set (user_roles db) \<and> ur_user_id ur = uid \<and>
          (\<exists>r. r \<in> set (roles db) \<and> role_id r = ur_role_id ur) \<and>
          (\<exists>rp. rp \<in> set (role_permissions db) \<and> rp_role_id rp = ur_role_id ur \<and>
             (\<exists>p. p \<in> set (permissions db) \<and> permission_id p = rp_permission_id rp \<and>
                  n = permission_name p))"
      using f(1,2,5) a b c by (intro exI [of _ ur] conjI exI [of _ rp])
  qed
  finally show "n \<in> effective_permissions db uid \<longleftrightarrow>
        n \<in> {permission_name p | p ur rp r.
        ur \<in> set (user_roles db) \<and> ur_user_id ur = uid \<and>
        r \<in> set (roles db) \<and> role_id r = ur_role_id ur \<and>
        rp \<in> set (role_permissions db) \<and> rp_role_id rp = role_id r \<and>
        p \<in> set (permissions db) \<and> permission_id p = rp_permission_id rp}"
    by simp
qed

lemma user_permission_names:
  assumes "primary_keys db"
  shows "set (concat (List.map_filter
                (\<lambda>ur. map_option (\<lambda>r. role_permission_names db (role_id r)) (role_of db (ur_role_id ur)))
                (filter (\<lambda>ur. ur_user_id ur = uid) (user_roles db))))
         = effective_permissions db uid"
proof -
  have "set (concat (List.map_filter
                (\<lambda>ur. map_option (\<lambda>r. role_permission_names db (role_id r)) (role_of db (ur_role_id ur)))
                (filter (\<lambda>ur. ur_user_id ur = uid) (user_roles db))))
        = (\<Union>ur \<in> {ur \<in> set (user_roles db). ur_user_id ur = uid}.
             \<Union>r \<in> {r \<in> set (roles db). role_id r = ur_role_id ur}. set (role_permission_names db (role_id r)))"
    unfolding set_concat set_map_filter using role_of_iff [OF assms] by fastforce
  also have "\<dots> = effective_permissions db uid"
    unfolding effective_permissions_joins set_role_permission_names [OF assms] by blast
  finally show ?thesis .
qed

lemma effective_permissions_after_call:
  "effective_permissions (after_call db) uid = effective_permissions db uid"
  unfolding effective_permissions_def by simp

lemma primary_keys_after_call: "primary_keys (after_call db) = primary_keys db"
  unfolding primary_keys_def by simp

lemma findMany_permissions_answers:
  assumes "answers db" and "primary_keys db"
  shows "\<exists>ns db'. userRole_findMany_permissions uid db = (Inr ns, db')
           \<and> set (concat ns) = effective_permissions db uid"
  unfolding userRole_findMany_permissions_def prisma_call_answers [OF assms(1)]
  using user_permission_names [of "after_call db" uid] assms(2)
  by (simp add: primary_keys_after_call effective_permissions_after_call del: set_concat)

lemma findMany_permissions_returns:
  "answers db \<Longrightarrow> \<exists>ns db'. userRole_findMany_permissions uid db = (Inr ns, db')"
  unfolding userRole_findMany_permissions_def by (simp add: prisma_call_answers)

lemma findMany_role_answers:
  "answers db \<Longrightarrow> \<exists>ns db'. userRole_findMany_role uid db = (Inr ns, db')"
  unfolding userRole_findMany_role_def by (simp add: prisma_call_answers)

lemma findMany_role_throws:
  "\<not> answers db \<Longrightarrow> \<exists>e db'. userRole_findMany_role uid db = (Inl e, db')"
  unfolding userRole_findMany_role_def by (rule prisma_call_throws)

lemma findMany_permissions_throws:
  "\<not> answers db \<Longrightarrow> \<exists>e db'. userRole_findMany_permissions uid db = (Inl e, db')"
  unfolding userRole_findMany_permissions_def by (rule prisma_call_throws)

lemma list_all_mem: "list_all (\<lambda>x. x \<in> S) xs \<longleftrightarrow> set xs \<subseteq> S"
  by (auto simp: list_all_iff)

lemma authorization_fails_closed:
  assumes "\<not> answers db" and "\<not> no_user_id user"
  shows "fst (hasRole rs user db) = Inr (denied INTERNAL_SERVER_ERROR ''Failed to check user role'')"
    and "fst (hasPermission ps user db) = Inr (denied INTERNAL_SERVER_ERROR ''Failed to check user permissions'')"
proof -
  obtain e db' where r: "userRole_findMany_role (userId (the user)) db = (Inl e, db')"
    using findMany_role_throws [OF assms(1), of "userId (the user)"] by blast
  obtain e' db'' where p: "userRole_findMany_permissions (userId (the user)) db = (Inl e', db'')"
    using findMany_permissions_throws [OF assms(1), of "userId (the user)"] by blast
  show "fst (hasRole rs user db) = Inr (denied INTERNAL_SERVER_ERROR ''Failed to check user role'')"
    using assms(2) by (simp add: hasRole_def r try_catch_def await_def resolve_def Let_def)
  show "fst (hasPermission ps user db) = Inr (denied INTERNAL_SERVER_ERROR ''Failed to check user permissions'')"
    using assms(2) by (simp add: hasPermission_def p try_catch_def await_def resolve_def Let_def)
qed

lemma hasPermission_decision:
  assumes "answers db" and "primary_keys db"
  shows "fst (hasPermission ps user db) =
           Inr (if no_user_id user then denied UNAUTHORIZED ''User not authenticated''
                else if set (as_array ps) \<subseteq> effective_permissions db (userId (the user)) then Next
                else denied FORBIDDEN (''Access denied. Required permission(s): '' @ join (as_array ps)))"
proof (cases "no_user_id user")
  case True
  then show ?thesis by (simp add: hasPermission_def resolve_def)
next
  case False
  obtain ns db' where call: "userRole_findMany_permissions (userId (the user)) db = (Inr ns, db')"
    and eff: "set (concat ns) = effective_permissions db (userId (the user))"
    using findMany_permissions_answers [OF assms] by blast
  show ?thesis
    using False
    by (simp add: hasPermission_def call try_catch_def await_def
        resolve_def Let_def eff list_all_mem del: set_concat)
qed

lemma unauthenticated_401:
  "fst (hasPermission ps None db) =
     Inr (Respond 401 \<lparr>success = False, message = ''User not authenticated'', data = None\<rparr>)"
  "userId u = [] \<Longrightarrow> fst (hasPermission ps (Some u) db) =
     Inr (Respond 401 \<lparr>success = False, message = ''User not authenticated'', data = None\<rparr>)"
  "fst (hasRole rs None db) =
     Inr (Respond 401 \<lparr>success = False, message = ''User not authenticated'', data = None\<rparr>)"
  "userId u = [] \<Longrightarrow> fst (hasRole rs (Some u) db) =
     Inr (Respond 401 \<lparr>success = False, message = ''User not authenticated'', data = None\<rparr>)"
  by (simp_all add: hasPermission_def hasRole_def no_user_id_def resolve_def denied_def UNAUTHORIZED_def)

text \<open>
  \<^verbatim>\<open>hasRole\<close> decides by the names of the roles assigned to the user: one of the allowed
  names among them is enough.
\<close>

lemma role_names_joins:
  "role_names db uid =
     {role_name r | r ur. ur \<in> set (user_roles db) \<and> ur_user_id ur = uid \<and>
        r \<in> set (roles db) \<and> role_id r = ur_role_id ur}"
  unfolding role_names_def by auto

lemma user_role_names:
  assumes "primary_keys db"
  shows "set (List.map_filter (\<lambda>ur. map_option role_name (role_of db (ur_role_id ur)))
                (filter (\<lambda>ur. ur_user_id ur = uid) (user_roles db))) = role_names db uid"
  unfolding set_map_filter role_names_joins
  using role_of_iff [OF assms] by auto

lemma role_names_after_call: "role_names (after_call db) uid = role_names db uid"
  unfolding role_names_def by simp

lemma findMany_role_names:
  assumes "answers db" and "primary_keys db"
  shows "\<exists>ns db'. userRole_findMany_role uid db = (Inr ns, db') \<and> set ns = role_names db uid"
  unfolding userRole_findMany_role_def prisma_call_answers [OF assms(1)]
  using user_role_names [of "after_call db" uid] assms(2)
  by (simp add: primary_keys_after_call role_names_after_call)

lemma list_ex_mem: "list_ex (\<lambda>x. x \<in> S) xs \<longleftrightarrow> set xs \<inter> S \<noteq> {}"
  by (auto simp: list_ex_iff)

lemma hasRole_decision:
  assumes "answers db" and "primary_keys db"
  shows "fst (hasRole rs user db) =
           Inr (if no_user_id user then denied UNAUTHORIZED ''User not authenticated''
                else if set (as_array rs) \<inter> role_names db (userId (the user)) \<noteq> {} then Next
                else denied FORBIDDEN (''Access denied. Required role(s): '' @ join (as_array rs)))"
proof (cases "no_user_id user")
  case True
  then show ?thesis by (simp add: hasRole_def resolve_def)
next
  case False
  obtain ns db' where call: "userRole_findMany_role (userId (the user)) db = (Inr ns, db')"
    and held: "set ns = role_names db (userId (the user))"
    using findMany_role_names [OF assms] by blast
  show ?thesis
    using False
    by (simp add: hasRole_def call try_catch_def await_def resolve_def Let_def held list_ex_mem)
qed

lemma demo_effective:
  "effective_permissions demo_db ''u1'' = {''users.read'', ''users.create''}"
  "effective_permissions demo_db ''u2'' = {''users.read''}"
  "effective_permissions demo_db ''u3'' = {}"
  by (simp_all add: effective_permissions_def demo_db_def insert_commute)

lemmas authz_eval = hasPermission_def hasRole_def no_user_id_def demo_db_def try_catch_def await_def
  resolve_def userRole_findMany_permissions_def userRole_findMany_role_def prisma_call_def role_of_def
  role_permission_names_def permission_of_def List.map_filter_simps denied_def
  UNAUTHORIZED_def FORBIDDEN_def INTERNAL_SERVER_ERROR_def

text \<open>
  C2. \<^verbatim>\<open>hasPermission(permissions)\<close> has AND semantics. When the lookup of the user's
  roles is answered and the request carries a user id, the middleware calls \<^verbatim>\<open>next()\<close>
  if every requested name lies in the union of the permission names of the user's roles,
  and answers 403 without calling \<^verbatim>\<open>next()\<close> if one of them does not; for one name as
  for an array of names. A request without a decoded token, or with an empty user id,
  is answered 401. (The lookup that throws is the subject of C1.)
\<close>

theorem hasPermission_and_semantics:
  assumes "answers db" and "primary_keys db"
  shows "(userId u \<noteq> [] \<and> set ns \<subseteq> effective_permissions db (userId u) \<longrightarrow>
            fst (hasPermission (Many ns) (Some u) db) = Inr Next) \<and>
         (userId u \<noteq> [] \<and> \<not> set ns \<subseteq> effective_permissions db (userId u) \<longrightarrow>
            (\<exists>text. fst (hasPermission (Many ns) (Some u) db) =
               Inr (Respond 403 \<lparr>success = False, message = text, data = None\<rparr>))) \<and>
         (userId u \<noteq> [] \<and> n \<in> effective_permissions db (userId u) \<longrightarrow>
            fst (hasPermission (Single n) (Some u) db) = Inr Next) \<and>
         (userId u \<noteq> [] \<and> n \<notin> effective_permissions db (userId u) \<longrightarrow>
            (\<exists>text. fst (hasPermission (Single n) (Some u) db) =
               Inr (Respond 403 \<lparr>success = False, message = text, data = None\<rparr>))) \<and>
         (userId u = [] \<longrightarrow>
            fst (hasPermission ps (Some u) db) =
              Inr (Respond 401 \<lparr>success = False, message = ''User not authenticated'', data = None\<rparr>)) \<and>
         fst (hasPermission ps None db) =
           Inr (Respond 401 \<lparr>success = False, message = ''User not authenticated'', data = None\<rparr>)"
proof -
  note d = hasPermission_decision [OF assms]
  have many: "fst (hasPermission (Many ns) (Some u) db) = Inr Next"
    if "userId u \<noteq> []" "set ns \<subseteq> effective_permissions db (userId u)"
    using that d [of "Many ns" "Some u"] by (simp add: no_user_id_def)
  have many_no: "\<exists>text. fst (hasPermission (Many ns) (Some u) db) =
               Inr (Respond 403 \<lparr>success = False, message = text, data = None\<rparr>)"
    if "userId u \<noteq> []" "\<not> set ns \<subseteq> effective_permissions db (userId u)"
    using that d [of "Many ns" "Some u"] by (simp add: no_user_id_def denied_def FORBIDDEN_def)
  have single: "fst (hasPermission (Single n) (Some u) db) = Inr Next"
    if "userId u \<noteq> []" "n \<in> effective_permissions db (userId u)"
    using that d [of "Single n" "Some u"] by (simp add: no_user_id_def)
  have single_no: "\<exists>text. fst (hasPermission (Single n) (Some u) db) =
               Inr (Respond 403 \<lparr>success = False, message = text, data = None\<rparr>)"
    if "userId u \<noteq> []" "n \<notin> effective_permissions db (userId u)"
    using that d [of "Single n" "Some u"] by (simp add: no_user_id_def denied_def FORBIDDEN_def)
  from many many_no single single_no unauthenticated_401(1) [where ps = ps and db = db] unauthenticated_401(2) [where ps = ps and db = db and u = u]
  show ?thesis by blast
qed

theorem hasPermission_and_semantics_witness:
  "answers demo_db \<and> primary_keys demo_db \<and>
   fst (hasPermission (Many [''users.read'', ''users.create'']) (Some alice) demo_db) = Inr Next \<and>
   fst (hasPermission (Many [''users.read'', ''users.create'']) (Some bob) demo_db) =
     Inr (Respond 403 \<lparr>success = False,
            message = ''Access denied. Required permission(s): users.read, users.create'', data = None\<rparr>) \<and>
   fst (hasPermission (Many [''users.read'', ''users.create'']) (Some carol) demo_db) =
     Inr (Respond 403 \<lparr>success = False,
            message = ''Access denied. Required permission(s): users.read, users.create'', data = None\<rparr>) \<and>
   fst (hasPermission (Single ''users.read'') (Some bob) demo_db) = Inr Next \<and>
   fst (hasPermission (Single ''users.create'') (Some bob) demo_db) =
     Inr (Respond 403 \<lparr>success = False,
            message = ''Access denied. Required permission(s): users.create'', data = None\<rparr>) \<and>
   fst (hasPermission (Single ''users.read'') (Some nameless) demo_db) =
     Inr (Respond 401 \<lparr>success = False, message = ''User not authenticated'', data = None\<rparr>) \<and>
   fst (hasPermission (Single ''users.read'') None demo_db) =
     Inr (Respond 401 \<lparr>success = False, message = ''User not authenticated'', data = None\<rparr>)"
proof -
  note T = hasPermission_and_semantics [OF demo_db_ok]
  have a: "fst (hasPermission (Many [''users.read'', ''users.create'']) (Some alice) demo_db) = Inr Next"
    using T [where u = alice and ns = "[''users.read'', ''users.create'']", THEN conjunct1]
    by (simp add: alice_def demo_effective)
  have b: "fst (hasPermission (Many [''users.read'', ''users.create'']) (Some bob) demo_db) =
     Inr (Respond 403 \<lparr>success = False,
            message = ''Access denied. Required permission(s): users.read, users.create'', data = None\<rparr>)"
    by (simp add: authz_eval bob_def)
  have c: "fst (hasPermission (Many [''users.read'', ''users.create'']) (Some carol) demo_db) =
     Inr (Respond 403 \<lparr>success = False,
            message = ''Access denied. Required permission(s): users.read, users.create'', data = None\<rparr>)"
    by (simp add: authz_eval carol_def)
  have d: "fst (hasPermission (Single ''users.read'') (Some bob) demo_db) = Inr Next"
    using T [where u = bob and n = "''users.read''", THEN conjunct2, THEN conjunct2, THEN conjunct1]
    by (simp add: bob_def demo_effective)
  have e: "fst (hasPermission (Single ''users.create'') (Some bob) demo_db) =
     Inr (Respond 403 \<lparr>success = False,
            message = ''Access denied. Required permission(s): users.create'', data = None\<rparr>)"
    by (simp add: authz_eval bob_def)
  have f: "fst (hasPermission (Single ''users.read'') (Some nameless) demo_db) =
     Inr (Respond 401 \<lparr>success = False, message = ''User not authenticated'', data = None\<rparr>)"
    using T [where u = nameless and ps = "Single ''users.read''"] by (simp add: nameless_def)
  have g: "fst (hasPermission (Single ''users.read'') None demo_db) =
     Inr (Respond 401 \<lparr>success = False, message = ''User not authenticated'', data = None\<rparr>)"
    using T [where ps = "Single ''users.read''"] by simp
  from demo_db_ok a b c d e f g show ?thesis by (intro conjI)
qed

section \<open>Empty lists of names\<close>

text \<open>
  C9. For a request that carries a user id, and a lookup that is answered:
  \<^verbatim>\<open>hasPermission([])\<close> calls \<^verbatim>\<open>next()\<close>, since \<^verbatim>\<open>every\<close> holds of the empty list, and
  \<^verbatim>\<open>hasRole([])\<close> answers 403, since \<^verbatim>\<open>some\<close> fails on it.
\<close>

theorem empty_list_boundary:
  assumes "answers db" and "\<not> no_user_id user"
  shows "fst (hasPermission (Many []) user db) = Inr Next \<and>
         fst (hasRole (Many []) user db) = Inr (denied FORBIDDEN ''Access denied. Required role(s): '')"
proof -
  obtain ns db' where p: "userRole_findMany_permissions (userId (the user)) db = (Inr ns, db')"
    using findMany_permissions_returns [OF assms(1), of "userId (the user)"] by blast
  obtain rs db'' where r: "userRole_findMany_role (userId (the user)) db = (Inr rs, db'')"
    using findMany_role_answers [OF assms(1), of "userId (the user)"] by blast
  have "fst (hasPermission (Many []) user db) = Inr Next"
    using assms(2) by (simp add: hasPermission_def p try_catch_def await_def resolve_def Let_def)
  moreover have "fst (hasRole (Many []) user db) = Inr (denied FORBIDDEN ''Access denied. Required role(s): '')"
    using assms(2) by (simp add: hasRole_def r try_catch_def await_def resolve_def Let_def)
  ultimately show ?thesis by simp
qed

theorem empty_list_boundary_witness:
  "answers demo_db \<and> \<not> no_user_id (Some alice) \<and>
   fst (hasPermission (Many []) (Some alice) demo_db) = Inr Next \<and>
   fst (hasRole (Many []) (Some alice) demo_db) =
     Inr (Respond 403 \<lparr>success = False, message = ''Access denied. Required role(s): '', data = None\<rparr>)"
  using empty_list_boundary [OF demo_db_ok(1) alice_has_id] demo_db_ok(1) alice_has_id
  by (simp add: denied_def FORBIDDEN_def)

text \<open>Whatever the database does, nobody passes \<^verbatim>\<open>hasRole([])\<close>.\<close>

lemma hasRole_empty_never_next: "fst (hasRole (Many []) user db) \<noteq> Inr Next"
proof (cases "no_user_id user")
  case True
  then show ?thesis by (simp add: hasRole_def resolve_def denied_def)
next
  case False
  obtain res db' where r: "userRole_findMany_role (userId (the user)) db = (res, db')"
    by (cases "userRole_findMany_role (userId (the user)) db")
  show ?thesis
    using False
    by (cases res) (simp_all add: hasRole_def r try_catch_def await_def resolve_def Let_def denied_def)
qed

section \<open>Token verification\<close>

text \<open>
  C3. \<^verbatim>\<open>verifyAccessToken\<close> and \<^verbatim>\<open>verifyRefreshToken\<close> return on every token and never
  throw: the decoded payload when \<^verbatim>\<open>jwt.verify\<close> returns one, \<^verbatim>\<open>null\<close> whenever it throws,
  whatever it throws.
\<close>

theorem verify_token_never_throws:
  "(\<exists>r. verifyAccessToken verify e token = Inr r) \<and>
   (\<exists>r. verifyRefreshToken verify e token = Inr r) \<and>
   verifyAccessToken verify e token =
     Inr (case verify token (JWT_SECRET e) of Inr decoded \<Rightarrow> Some decoded | Inl failure \<Rightarrow> None) \<and>
   verifyRefreshToken verify e token =
     Inr (case verify token (JWT_REFRESH_SECRET e) of Inr decoded \<Rightarrow> Some decoded | Inl failure \<Rightarrow> None)"
  by (simp add: verifyAccessToken_def verifyRefreshToken_def split: sum.splits)

theorem verify_token_never_throws_witness:
  "verifyAccessToken demo_verify demo_env ''token-of-alice'' = Inr (Some alice) \<and>
   verifyAccessToken demo_verify demo_env ''expired'' = Inr None \<and>
   verifyRefreshToken demo_verify demo_env ''token-of-alice'' = Inr None"
  using verify_token_never_throws [of demo_verify demo_env "''token-of-alice''"]
    verify_token_never_throws [of demo_verify demo_env "''expired''"]
  by (simp add: demo_verify_def demo_env_def)

section \<open>Login\<close>

lemma user_findUnique_email_answers:
  "answers db \<Longrightarrow> user_findUnique_email e db = (Inr (find (\<lambda>u. user_email u = e) (users db)), after_call db)"
  by (simp add: user_findUnique_email_def prisma_call_answers)

lemma find_None_iff_notin: "find (\<lambda>u. f u = k) xs = None \<longleftrightarrow> k \<notin> set (map f xs)"
  by (induction xs) auto

lemma login_unknown_email:
  assumes "answers db" and "login_email d \<notin> set (map user_email (users db))"
  shows "login_controller compare sign e (Some d) db =
           (Inr (Respond UNAUTHORIZED \<lparr>success = False, message = ''Invalid credentials'', data = None\<rparr>),
            after_call db)"
proof -
  have "find (\<lambda>u. user_email u = login_email d) (users db) = None"
    using assms(2) by (simp only: find_None_iff_notin not_False_eq_True)
  then show ?thesis
    by (simp add: login_controller_def login_def user_findUnique_email_answers [OF assms(1)]
        try_catch_def await_def throw_def resolve_def)
qed

lemma login_wrong_password:
  assumes "answers db" and "find (\<lambda>u. user_email u = login_email d) (users db) = Some u"
    and "\<not> compare (login_password d) (user_password u)"
  shows "login_controller compare sign e (Some d) db =
           (Inr (Respond UNAUTHORIZED \<lparr>success = False, message = ''Invalid credentials'', data = None\<rparr>),
            after_call db)"
  using assms(2,3)
  by (simp add: login_controller_def login_def user_findUnique_email_answers [OF assms(1)]
        try_catch_def await_def throw_def resolve_def)

text \<open>
  C8. A login with an email no user has and a login with the email of a user and a
  password that does not match its hash get the same response: status 401 and the
  envelope with the message "Invalid credentials"; the two runs also leave the same
  state behind. The hypotheses: the lookup is answered, the first email is in no row,
  the second is the email of \<open>u\<close>, whose hash the password fails.
\<close>

theorem login_indistinguishable:
  assumes "answers db"
    and "login_email d1 \<notin> set (map user_email (users db))"
    and "find (\<lambda>u. user_email u = login_email d2) (users db) = Some u"
    and "\<not> compare (login_password d2) (user_password u)"
  shows "login_controller compare sign e (Some d1) db = login_controller compare sign e (Some d2) db \<and>
         fst (login_controller compare sign e (Some d1) db) =
           Inr (Respond UNAUTHORIZED \<lparr>success = False, message = ''Invalid credentials'', data = None\<rparr>)"
  using login_unknown_email [OF assms(1,2)] login_wrong_password [where compare = compare, OF assms(1,3,4)] by simp

theorem login_indistinguishable_witness:
  "answers demo_db \<and>
   login_controller demo_compare demo_sign demo_env
     (Some \<lparr>login_email = ''mallory@example.com'', login_password = ''guess''\<rparr>) demo_db =
   login_controller demo_compare demo_sign demo_env
     (Some \<lparr>login_email = ''bob@example.com'', login_password = ''guess''\<rparr>) demo_db \<and>
   fst (login_controller demo_compare demo_sign demo_env
     (Some \<lparr>login_email = ''bob@example.com'', login_password = ''guess''\<rparr>) demo_db) =
     Inr (Respond 401 \<lparr>success = False, message = ''Invalid credentials'', data = None\<rparr>) \<and>
   fst (login_controller demo_compare demo_sign demo_env
     (Some \<lparr>login_email = ''bob@example.com'', login_password = ''hunter2''\<rparr>) demo_db) =
     Inr (Respond 200 \<lparr>success = True, message = ''Login successful'',
            data = Some \<lparr>access_token = ''u2.access-secret.7d'', refresh_token = ''u2.refresh-secret.30d'',
                          token_type = ''Bearer'', expires_in = ''7d''\<rparr>\<rparr>)"
proof -
  have a: "login_email \<lparr>login_email = ''mallory@example.com'', login_password = ''guess''\<rparr>
             \<notin> set (map user_email (users demo_db))"
    by (simp add: demo_db_def)
  have b: "find (\<lambda>u. user_email u = login_email \<lparr>login_email = ''bob@example.com'', login_password = ''guess''\<rparr>)
             (users demo_db) = Some \<lparr>user_id = ''u2'', user_name = ''Bob'', user_email = ''bob@example.com'',
                 user_password = ''hash-of-hunter2'', user_created_at = 200\<rparr>"
    by (simp add: demo_db_def)
  have c: "\<not> demo_compare (login_password \<lparr>login_email = ''bob@example.com'', login_password = ''guess''\<rparr>)
             (user_password \<lparr>user_id = ''u2'', user_name = ''Bob'', user_email = ''bob@example.com'',
                 user_password = ''hash-of-hunter2'', user_created_at = 200\<rparr>)"
    by (simp add: demo_compare_def)
  have d: "fst (login_controller demo_compare demo_sign demo_env
     (Some \<lparr>login_email = ''bob@example.com'', login_password = ''hunter2''\<rparr>) demo_db) =
     Inr (Respond 200 \<lparr>success = True, message = ''Login successful'',
            data = Some \<lparr>access_token = ''u2.access-secret.7d'', refresh_token = ''u2.refresh-secret.30d'',
                          token_type = ''Bearer'', expires_in = ''7d''\<rparr>\<rparr>)"
    by (simp add: login_controller_def login_def user_findUnique_email_def prisma_call_def demo_db_def
        try_catch_def await_def throw_def resolve_def demo_compare_def generateTokenPair_def
        generateAccessToken_def generateRefreshToken_def demo_sign_def demo_env_def OK_def)
  note same = login_indistinguishable [where compare = demo_compare and sign = demo_sign and e = demo_env,
      OF demo_db_ok(1) a b c, unfolded UNAUTHORIZED_def]
  from same have eq: "login_controller demo_compare demo_sign demo_env
     (Some \<lparr>login_email = ''mallory@example.com'', login_password = ''guess''\<rparr>) demo_db =
   login_controller demo_compare demo_sign demo_env
     (Some \<lparr>login_email = ''bob@example.com'', login_password = ''guess''\<rparr>) demo_db"
    by (rule conjunct1)
  from same have r: "fst (login_controller demo_compare demo_sign demo_env
     (Some \<lparr>login_email = ''bob@example.com'', login_password = ''guess''\<rparr>) demo_db) =
     Inr (Respond 401 \<lparr>success = False, message = ''Invalid credentials'', data = None\<rparr>)"
    unfolding eq by (rule conjunct2)
  from demo_db_ok(1) eq r d show ?thesis by (intro conjI)
qed

section \<open>Request validation\<close>

lemma join_dot_dotted: "join_dot segments = dotted segments"
proof (induction segments rule: join_dot.induct)
  case 1
  show ?case by (simp add: dotted_def)
next
  case (2 n)
  show ?case by (simp add: dotted_def)
next
  case (3 n m ms)
  then show ?case by (simp add: dotted_def)
qed

lemma run_collects: "issues (run validation wh val st) = issues st @ issues_of wh (schema_at validation wh) val"
  by (simp add: run_def issues_of_def join_dot_dotted Let_def split: option.splits sum.splits)

lemma run_req:
  "req (run validation wh val st) =
     (if wh = body
      then (case body_schema validation of
              None \<Rightarrow> req st
            | Some schema \<Rightarrow> (case schema val of Inl _ \<Rightarrow> req st | Inr d \<Rightarrow> (req st)\<lparr>req_body := d\<rparr>))
      else req st)"
  by (cases wh) (simp_all add: run_def Let_def split: option.splits sum.splits)

lemma run_req_other [simp]:
  "req_query (req (run validation wh val st)) = req_query (req st)"
  "req_params (req (run validation wh val st)) = req_params (req st)"
  "req_headers (req (run validation wh val st)) = req_headers (req st)"
  by (simp_all add: run_req split: option.splits sum.splits)

lemma run_req_body_other:
  "wh \<noteq> body \<Longrightarrow> req_body (req (run validation wh val st)) = req_body (req st)"
  by (simp add: run_req)

text \<open>
  C5. The validator runs the params, query, body and headers schemas, each one that is
  given, on its own section of the request and collects the issues of all of them, in
  this order, each as \<^verbatim>\<open>{where, path, message}\<close> with the path joined by dots. If there
  is any issue the answer is 422 with the body
  \<^verbatim>\<open>{status: "error", message: "Validation error", errors}\<close> listing every one, and
  \<^verbatim>\<open>next()\<close> is not called; otherwise \<^verbatim>\<open>next()\<close> is called.
\<close>

theorem zodValidator_collects_every_issue:
  "fst (zodValidator validation r) =
     (if issues_of params (params_schema validation) (req_params r) @
         issues_of query (query_schema validation) (req_query r) @
         issues_of body (body_schema validation) (req_body r) @
         issues_of headers (headers_schema validation) (req_headers r) \<noteq> []
      then Respond 422 (ErrorBody ''error'' ''Validation error''
             (issues_of params (params_schema validation) (req_params r) @
              issues_of query (query_schema validation) (req_query r) @
              issues_of body (body_schema validation) (req_body r) @
              issues_of headers (headers_schema validation) (req_headers r)))
      else Next)"
  by (simp add: zodValidator_def Let_def run_collects run_req_body_other)

theorem zodValidator_collects_every_issue_witness:
  "fst (zodValidator strict_validation bare_request) =
     Respond 422 (ErrorBody ''error'' ''Validation error''
       [\<lparr>issue_where = params, path = ''id'', msg = ''Required''\<rparr>,
        \<lparr>issue_where = query, path = ''page'', msg = ''Required''\<rparr>,
        \<lparr>issue_where = query, path = ''per_page'', msg = ''Required''\<rparr>,
        \<lparr>issue_where = body, path = ''address.city'', msg = ''Required''\<rparr>,
        \<lparr>issue_where = headers, path = ''authorization'', msg = ''Required''\<rparr>]) \<and>
   fst (zodValidator strict_validation (bare_request\<lparr>req_headers := [(''authorization'', ''Bearer x'')]\<rparr>)) =
     Respond 422 (ErrorBody ''error'' ''Validation error''
       [\<lparr>issue_where = params, path = ''id'', msg = ''Required''\<rparr>,
        \<lparr>issue_where = query, path = ''page'', msg = ''Required''\<rparr>,
        \<lparr>issue_where = query, path = ''per_page'', msg = ''Required''\<rparr>,
        \<lparr>issue_where = body, path = ''address.city'', msg = ''Required''\<rparr>]) \<and>
   fst (zodValidator strict_validation (full_request\<lparr>req_headers := []\<rparr>)) =
     Respond 422 (ErrorBody ''error'' ''Validation error''
       [\<lparr>issue_where = headers, path = ''authorization'', msg = ''Required''\<rparr>]) \<and>
   fst (zodValidator strict_validation full_request) = Next \<and>
   fst (zodValidator demo_validation demo_request) =
     Respond 422 (ErrorBody ''error'' ''Validation error''
       [\<lparr>issue_where = params, path = ''id'', msg = ''Required''\<rparr>,
        \<lparr>issue_where = query, path = ''page'', msg = ''Required''\<rparr>,
        \<lparr>issue_where = query, path = ''per_page'', msg = ''Required''\<rparr>])"
proof -
  note defs = issues_of_def dotted_def strict_validation_def demo_validation_def bare_request_def
    full_request_def demo_request_def object_schema_def address_schema_def required_def
  have a: "fst (zodValidator strict_validation bare_request) =
     Respond 422 (ErrorBody ''error'' ''Validation error''
       [\<lparr>issue_where = params, path = ''id'', msg = ''Required''\<rparr>,
        \<lparr>issue_where = query, path = ''page'', msg = ''Required''\<rparr>,
        \<lparr>issue_where = query, path = ''per_page'', msg = ''Required''\<rparr>,
        \<lparr>issue_where = body, path = ''address.city'', msg = ''Required''\<rparr>,
        \<lparr>issue_where = headers, path = ''authorization'', msg = ''Required''\<rparr>])"
    using zodValidator_collects_every_issue [of strict_validation bare_request]
    by (simp add: defs)
  have b: "fst (zodValidator strict_validation (bare_request\<lparr>req_headers := [(''authorization'', ''Bearer x'')]\<rparr>)) =
     Respond 422 (ErrorBody ''error'' ''Validation error''
       [\<lparr>issue_where = params, path = ''id'', msg = ''Required''\<rparr>,
        \<lparr>issue_where = query, path = ''page'', msg = ''Required''\<rparr>,
        \<lparr>issue_where = query, path = ''per_page'', msg = ''Required''\<rparr>,
        \<lparr>issue_where = body, path = ''address.city'', msg = ''Required''\<rparr>])"
    using zodValidator_collects_every_issue
      [of strict_validation "bare_request\<lparr>req_headers := [(''authorization'', ''Bearer x'')]\<rparr>"]
    by (simp add: defs)
  have c: "fst (zodValidator strict_validation (full_request\<lparr>req_headers := []\<rparr>)) =
     Respond 422 (ErrorBody ''error'' ''Validation error''
       [\<lparr>issue_where = headers, path = ''authorization'', msg = ''Required''\<rparr>])"
    using zodValidator_collects_every_issue [of strict_validation "full_request\<lparr>req_headers := []\<rparr>"]
    by (simp add: defs)
  have d: "fst (zodValidator strict_validation full_request) = Next"
    using zodValidator_collects_every_issue [of strict_validation full_request]
    by (simp add: defs)
  have e: "fst (zodValidator demo_validation demo_request) =
     Respond 422 (ErrorBody ''error'' ''Validation error''
       [\<lparr>issue_where = params, path = ''id'', msg = ''Required''\<rparr>,
        \<lparr>issue_where = query, path = ''page'', msg = ''Required''\<rparr>,
        \<lparr>issue_where = query, path = ''per_page'', msg = ''Required''\<rparr>])"
    using zodValidator_collects_every_issue [of demo_validation demo_request]
    by (simp add: defs)
  from a b c d e show ?thesis by (intro conjI)
qed

text \<open>
  C10. On every path the validator leaves \<^verbatim>\<open>req.query\<close>, \<^verbatim>\<open>req.params\<close> and
  \<^verbatim>\<open>req.headers\<close> as they were, and \<^verbatim>\<open>req.body\<close> is the parsed body whenever the body
  schema accepts the body, whether or not another section fails and 422 is sent.
\<close>

theorem zodValidator_frame:
  "req_query (snd (zodValidator validation r)) = req_query r \<and>
   req_params (snd (zodValidator validation r)) = req_params r \<and>
   req_headers (snd (zodValidator validation r)) = req_headers r \<and>
   req_body (snd (zodValidator validation r)) =
     (case body_schema validation of
        None \<Rightarrow> req_body r
      | Some schema \<Rightarrow> (case schema (req_body r) of Inl errs \<Rightarrow> req_body r | Inr parsed \<Rightarrow> parsed))"
  by (simp add: zodValidator_def Let_def run_req run_req_body_other split: option.splits sum.splits)

theorem zodValidator_frame_witness:
  "(\<exists>errs. fst (zodValidator demo_validation demo_request) = Respond 422 errs) \<and>
   req_body demo_request = [(''email'', ''bob@example.com''), (''is_admin'', ''true'')] \<and>
   req_body (snd (zodValidator demo_validation demo_request)) = [(''email'', ''bob@example.com'')] \<and>
   req_query (snd (zodValidator demo_validation demo_request)) = req_query demo_request \<and>
   req_params (snd (zodValidator demo_validation demo_request)) = req_params demo_request \<and>
   req_headers (snd (zodValidator demo_validation demo_request)) = req_headers demo_request \<and>
   req_validated (snd (zodValidator demo_validation demo_request)) = None"
proof -
  have "fst (zodValidator demo_validation demo_request) =
     Respond 422 (ErrorBody ''error'' ''Validation error''
       [\<lparr>issue_where = params, path = ''id'', msg = ''Required''\<rparr>,
        \<lparr>issue_where = query, path = ''page'', msg = ''Required''\<rparr>,
        \<lparr>issue_where = query, path = ''per_page'', msg = ''Required''\<rparr>])"
    by (simp add: zodValidator_def Let_def run_def demo_validation_def demo_request_def
        object_schema_def required_def)
  then have a: "\<exists>errs. fst (zodValidator demo_validation demo_request) = Respond 422 errs" by simp
  have b: "req_body (snd (zodValidator demo_validation demo_request)) = [(''email'', ''bob@example.com'')]"
    using zodValidator_frame [of demo_validation demo_request]
    by (simp add: demo_validation_def demo_request_def object_schema_def required_def)
  have c: "req_validated (snd (zodValidator demo_validation demo_request)) = None"
    by (simp add: zodValidator_def Let_def run_def demo_validation_def demo_request_def
        object_schema_def required_def)
  show ?thesis
    using a b c zodValidator_frame [of demo_validation demo_request]
    by (simp add: demo_request_def)
qed

section \<open>Paginated lists\<close>

lemma or_default_pos: "0 < d \<Longrightarrow> 0 < or_default x d"
  by (cases "(x, d)" rule: or_default.cases) simp_all

lemma or_default_Some: "0 < n \<Longrightarrow> or_default (Some n) d = n"
  by (cases n) simp_all

lemma order_desc_descending:
  "sorted_wrt (\<lambda>a b. created_at b \<le> created_at a) (take n (drop k (order_desc created_at rows)))"
proof -
  have "sorted (map (\<lambda>r. - created_at r) (order_desc created_at rows))"
    unfolding order_desc_def by (rule sorted_sort_key)
  then have "sorted_wrt (\<lambda>a b. created_at b \<le> created_at a) (order_desc created_at rows)"
    by (simp add: sorted_map)
  then show ?thesis by (intro sorted_wrt_take sorted_wrt_drop)
qed

lemma getAllUsers_healthy:
  assumes "faults db = []"
  shows "getAllUsers ps db =
    (Inr (map select_user (take (requested_per_page ps)
            (drop ((requested_page ps - 1) * requested_per_page ps) (order_desc user_created_at (users db)))),
          \<lparr>meta_total = length (users db), meta_page = requested_page ps,
            meta_per_page = requested_per_page ps,
            meta_total_pages = \<lceil>real (length (users db)) / real (requested_per_page ps)\<rceil>,
            meta_has_next_page = (int (requested_page ps) < \<lceil>real (length (users db)) / real (requested_per_page ps)\<rceil>),
            meta_has_prev_page = (1 < requested_page ps)\<rparr>), db)"
  using assms
  by (cases ps)
     (simp_all add: getAllUsers_def Let_def await_def resolve_def user_count_def user_findMany_def
      prisma_call_healthy requested_page_def requested_per_page_def or_default_Some)

lemma getAllRoles_healthy:
  assumes "faults db = []"
  shows "getAllRoles ps db =
    (Inr (map (role_view db) (take (requested_per_page ps)
            (drop ((requested_page ps - 1) * requested_per_page ps) (order_desc role_created_at (roles db)))),
          \<lparr>meta_total = length (roles db), meta_page = requested_page ps,
            meta_per_page = requested_per_page ps,
            meta_total_pages = \<lceil>real (length (roles db)) / real (requested_per_page ps)\<rceil>,
            meta_has_next_page = (int (requested_page ps) < \<lceil>real (length (roles db)) / real (requested_per_page ps)\<rceil>),
            meta_has_prev_page = (1 < requested_page ps)\<rparr>), db)"
  using assms
  by (cases ps)
     (simp_all add: getAllRoles_def Let_def await_def resolve_def role_count_def role_findMany_def
      prisma_call_healthy requested_page_def requested_per_page_def or_default_Some)

lemma select_user_created [simp]: "row_created_at (select_user u) = user_created_at u"
  by (simp add: select_user_def)

lemma role_view_created [simp]: "view_created_at (role_view db r) = role_created_at r"
  by (simp add: role_view_def)

lemma requested_validated:
  "0 < p \<Longrightarrow> 0 < k \<Longrightarrow>
   requested_page (Some \<lparr>page = Some p, per_page = Some k\<rparr>) = p \<and>
   requested_per_page (Some \<lparr>page = Some p, per_page = Some k\<rparr>) = k"
  by (simp add: requested_page_def requested_per_page_def or_default_Some)

text \<open>
  C4. When the database answers, \<^verbatim>\<open>getAllUsers\<close> and \<^verbatim>\<open>getAllRoles\<close> return rows and
  metadata with: \<^verbatim>\<open>total\<close> the size of the table; \<^verbatim>\<open>page\<close> and \<^verbatim>\<open>per_page\<close> the
  parameters (a missing or zero one replaced by 1 and 10); \<^verbatim>\<open>per_page\<close> positive;
  \<^verbatim>\<open>total_pages = ceil(total / per_page)\<close>; \<^verbatim>\<open>has_next_page = (page < total_pages)\<close>;
  \<^verbatim>\<open>has_prev_page = (page > 1)\<close>; and the rows are the \<^verbatim>\<open>per_page\<close> rows after the first
  \<^verbatim>\<open>(page - 1) * per_page\<close> of the table ordered by creation time, newest first.
\<close>

theorem pagination_metadata:
  assumes "faults db = []"
  shows "(\<exists>rows m. fst (getAllUsers ps db) = Inr (rows, m) \<and>
            meta_total m = length (users db) \<and>
            meta_page m = requested_page ps \<and> meta_per_page m = requested_per_page ps \<and>
            0 < meta_per_page m \<and>
            meta_total_pages m = \<lceil>real (meta_total m) / real (meta_per_page m)\<rceil> \<and>
            meta_has_next_page m = (int (meta_page m) < meta_total_pages m) \<and>
            meta_has_prev_page m = (meta_page m > 1) \<and>
            rows = map select_user (take (meta_per_page m) (drop ((meta_page m - 1) * meta_per_page m)
                     (order_desc user_created_at (users db)))) \<and>
            sorted_wrt (\<lambda>a b. row_created_at b \<le> row_created_at a) rows) \<and>
         (\<exists>rows m. fst (getAllRoles ps db) = Inr (rows, m) \<and>
            meta_total m = length (roles db) \<and>
            meta_page m = requested_page ps \<and> meta_per_page m = requested_per_page ps \<and>
            0 < meta_per_page m \<and>
            meta_total_pages m = \<lceil>real (meta_total m) / real (meta_per_page m)\<rceil> \<and>
            meta_has_next_page m = (int (meta_page m) < meta_total_pages m) \<and>
            meta_has_prev_page m = (meta_page m > 1) \<and>
            rows = map (role_view db) (take (meta_per_page m) (drop ((meta_page m - 1) * meta_per_page m)
                     (order_desc role_created_at (roles db)))) \<and>
            sorted_wrt (\<lambda>a b. view_created_at b \<le> view_created_at a) rows)"
proof -
  have pos: "0 < requested_per_page ps"
    unfolding requested_per_page_def by (rule or_default_pos) simp
  have u: "sorted_wrt (\<lambda>a b. row_created_at b \<le> row_created_at a)
             (map select_user (take (requested_per_page ps)
               (drop ((requested_page ps - 1) * requested_per_page ps) (order_desc user_created_at (users db)))))"
    using order_desc_descending [of user_created_at] by (simp add: sorted_wrt_map)
  have r: "sorted_wrt (\<lambda>a b. view_created_at b \<le> view_created_at a)
             (map (role_view db) (take (requested_per_page ps)
               (drop ((requested_page ps - 1) * requested_per_page ps) (order_desc role_created_at (roles db)))))"
    using order_desc_descending [of role_created_at] by (simp add: sorted_wrt_map)
  show ?thesis
    unfolding getAllUsers_healthy [OF assms] getAllRoles_healthy [OF assms]
    using pos u r by simp
qed

theorem pagination_metadata_witness:
  "faults demo_db = [] \<and>
   fst (getAllUsers (Some \<lparr>page = Some 2, per_page = Some 2\<rparr>) demo_db) =
     Inr ([\<lparr>row_id = ''u1'', row_name = ''Alice'', row_email = ''alice@example.com'', row_created_at = 100\<rparr>],
          \<lparr>meta_total = 3, meta_page = 2, meta_per_page = 2, meta_total_pages = 2,
            meta_has_next_page = False, meta_has_prev_page = True\<rparr>) \<and>
   fst (getAllRoles None demo_db) =
     Inr ([\<lparr>view_id = ''r2'', view_name = ''editor'',
             view_permissions = [\<lparr>permission_id = ''p2'', permission_name = ''users.create''\<rparr>],
             view_users_count = 1, view_created_at = 20\<rparr>,
           \<lparr>view_id = ''r1'', view_name = ''admin'',
             view_permissions = [\<lparr>permission_id = ''p1'', permission_name = ''users.read''\<rparr>],
             view_users_count = 2, view_created_at = 10\<rparr>],
          \<lparr>meta_total = 2, meta_page = 1, meta_per_page = 10, meta_total_pages = 1,
            meta_has_next_page = False, meta_has_prev_page = False\<rparr>)"
proof -
  have h: "faults demo_db = []" by (simp add: demo_db_def)
  have p: "requested_page (Some \<lparr>page = Some 2, per_page = Some 2\<rparr>) = 2"
    "requested_per_page (Some \<lparr>page = Some 2, per_page = Some 2\<rparr>) = 2"
    "requested_page None = 1" "requested_per_page None = 10"
    by (simp_all add: requested_page_def requested_per_page_def or_default_Some)
  have n: "length (users demo_db) = 3" "length (roles demo_db) = 2"
    by (simp_all add: demo_db_def)
  have u: "map select_user (take 2 (drop ((2 - 1) * 2) (order_desc user_created_at (users demo_db))))
             = [\<lparr>row_id = ''u1'', row_name = ''Alice'', row_email = ''alice@example.com'', row_created_at = 100\<rparr>]"
    by (simp add: demo_db_def order_desc_def select_user_def)
  have r: "map (role_view demo_db) (take 10 (drop ((1 - 1) * 10) (order_desc role_created_at (roles demo_db))))
             = [\<lparr>view_id = ''r2'', view_name = ''editor'',
             view_permissions = [\<lparr>permission_id = ''p2'', permission_name = ''users.create''\<rparr>],
             view_users_count = 1, view_created_at = 20\<rparr>,
           \<lparr>view_id = ''r1'', view_name = ''admin'',
             view_permissions = [\<lparr>permission_id = ''p1'', permission_name = ''users.read''\<rparr>],
             view_users_count = 2, view_created_at = 10\<rparr>]"
    by (simp add: demo_db_def order_desc_def role_view_def role_permissions_of_def permission_of_def
        List.map_filter_simps)
  have c: "\<lceil>real (3::nat) / real (2::nat)\<rceil> = 2" "\<lceil>real (2::nat) / real (10::nat)\<rceil> = 1"
    by (simp_all add: ceiling_eq_iff)
  note pm = pagination_metadata [OF h, of "Some \<lparr>page = Some 2, per_page = Some 2\<rparr>", unfolded p n]
  from pm obtain rows m where
    a: "fst (getAllUsers (Some \<lparr>page = Some 2, per_page = Some 2\<rparr>) demo_db) = Inr (rows, m)"
      "meta_total m = 3" "meta_page m = 2" "meta_per_page m = 2"
      "meta_total_pages m = \<lceil>real (meta_total m) / real (meta_per_page m)\<rceil>"
      "meta_has_next_page m = (int (meta_page m) < meta_total_pages m)"
      "meta_has_prev_page m = (meta_page m > 1)"
      "rows = map select_user (take (meta_per_page m) (drop ((meta_page m - 1) * meta_per_page m)
                     (order_desc user_created_at (users demo_db))))"
    by (elim conjE exE)
  have m: "m = \<lparr>meta_total = 3, meta_page = 2, meta_per_page = 2, meta_total_pages = 2,
            meta_has_next_page = False, meta_has_prev_page = True\<rparr>"
    using a(2-7) c(1) by (cases m) simp
  have rows: "rows = [\<lparr>row_id = ''u1'', row_name = ''Alice'', row_email = ''alice@example.com'', row_created_at = 100\<rparr>]"
    using a(8) u unfolding a(3,4) by simp
  have users: "fst (getAllUsers (Some \<lparr>page = Some 2, per_page = Some 2\<rparr>) demo_db) =
     Inr ([\<lparr>row_id = ''u1'', row_name = ''Alice'', row_email = ''alice@example.com'', row_created_at = 100\<rparr>],
          \<lparr>meta_total = 3, meta_page = 2, meta_per_page = 2, meta_total_pages = 2,
            meta_has_next_page = False, meta_has_prev_page = True\<rparr>)"
    using a(1) unfolding m rows .
  have roles: "fst (getAllRoles None demo_db) =
     Inr ([\<lparr>view_id = ''r2'', view_name = ''editor'',
             view_permissions = [\<lparr>permission_id = ''p2'', permission_name = ''users.create''\<rparr>],
             view_users_count = 1, view_created_at = 20\<rparr>,
           \<lparr>view_id = ''r1'', view_name = ''admin'',
             view_permissions = [\<lparr>permission_id = ''p1'', permission_name = ''users.read''\<rparr>],
             view_users_count = 2, view_created_at = 10\<rparr>],
          \<lparr>meta_total = 2, meta_page = 1, meta_per_page = 10, meta_total_pages = 1,
            meta_has_next_page = False, meta_has_prev_page = False\<rparr>)"
    unfolding getAllRoles_healthy [OF h] p n using r c(2) by simp
  from h users roles show ?thesis by (intro conjI)
qed

section \<open>Assigning permissions to a role\<close>

lemma length_filter_keys:
  assumes "distinct (map f xs)"
  shows "length (filter (\<lambda>x. f x \<in> S) xs) = card (S \<inter> f ` set xs)"
proof -
  have "length (filter (\<lambda>x. f x \<in> S) xs) = length (filter (\<lambda>y. y \<in> S) (map f xs))"
    by (induction xs) simp_all
  also have "\<dots> = card (set (filter (\<lambda>y. y \<in> S) (map f xs)))"
  proof -
    have "distinct (filter (\<lambda>y. y \<in> S) (map f xs))" using assms by (rule distinct_filter)
    then show ?thesis by (simp only: distinct_card)
  qed
  also have "set (filter (\<lambda>y. y \<in> S) (map f xs)) = S \<inter> f ` set xs" by auto
  finally show ?thesis .
qed

lemma found_all_iff:
  assumes "distinct (map permission_id ps)" and "distinct ids"
  shows "length (filter (\<lambda>p. permission_id p \<in> set ids) ps) = length ids
           \<longleftrightarrow> set ids \<subseteq> permission_id ` set ps"
proof -
  have l: "length (filter (\<lambda>p. permission_id p \<in> set ids) ps) = card (set ids \<inter> permission_id ` set ps)"
    using assms(1) by (rule length_filter_keys)
  have c: "card (set ids) = length ids" using assms(2) by (rule distinct_card)
  show ?thesis
  proof
    assume "length (filter (\<lambda>p. permission_id p \<in> set ids) ps) = length ids"
    with l c have "card (set ids \<inter> permission_id ` set ps) = card (set ids)" by simp
    then have "set ids \<inter> permission_id ` set ps = set ids"
      by (intro card_subset_eq) simp_all
    then show "set ids \<subseteq> permission_id ` set ps" by blast
  next
    assume "set ids \<subseteq> permission_id ` set ps"
    then have "set ids \<inter> permission_id ` set ps = set ids" by blast
    with l c show "length (filter (\<lambda>p. permission_id p \<in> set ids) ps) = length ids" by simp
  qed
qed

lemma missing_id_rejected:
  assumes "distinct (map permission_id ps)" and "\<not> set ids \<subseteq> permission_id ` set ps"
  shows "length (filter (\<lambda>p. permission_id p \<in> set ids) ps) \<noteq> length ids"
proof -
  have "length (filter (\<lambda>p. permission_id p \<in> set ids) ps) = card (set ids \<inter> permission_id ` set ps)"
    using assms(1) by (rule length_filter_keys)
  also have "\<dots> < card (set ids)"
    using assms(2) by (intro psubset_card_mono) auto
  also have "\<dots> \<le> length ids" by (rule card_length)
  finally show ?thesis by simp
qed

lemma replaced_tables [simp]:
  "users (replaced db rid ids) = users db" "roles (replaced db rid ids) = roles db"
  "permissions (replaced db rid ids) = permissions db" "user_roles (replaced db rid ids) = user_roles db"
  "faults (replaced db rid ids) = faults db"
  by (simp_all add: replaced_def)

lemma assigned_replaced: "assigned (replaced db rid ids) rid = ids"
  by (simp add: assigned_def replaced_def comp_def)

lemma assigned_replaced_other: "rid' \<noteq> rid \<Longrightarrow> assigned (replaced db rid ids) rid' = assigned db rid'"
proof -
  assume "rid' \<noteq> rid"
  then have "filter (\<lambda>rp. rp_role_id rp = rid') (filter (\<lambda>rp. rp_role_id rp \<noteq> rid) (role_permissions db))
               = filter (\<lambda>rp. rp_role_id rp = rid') (role_permissions db)"
    by (simp add: conj_commute) metis
  with \<open>rid' \<noteq> rid\<close> show ?thesis
    by (simp add: assigned_def replaced_def comp_def)
qed

lemma distinct_replaced:
  assumes "distinct (role_permissions db)" and "distinct ids"
  shows "distinct (role_permissions (replaced db rid ids))"
proof -
  have "inj (\<lambda>p. \<lparr>rp_role_id = rid, rp_permission_id = p\<rparr>)" by (rule injI) simp
  then have "distinct (map (\<lambda>p. \<lparr>rp_role_id = rid, rp_permission_id = p\<rparr>) ids)"
    using assms(2) by (simp add: distinct_map inj_on_def)
  then show ?thesis
    using assms(1) by (auto simp: replaced_def)
qed

lemma map_filter_map: "List.map_filter f (map g xs) = List.map_filter (\<lambda>x. f (g x)) xs"
  by (induction xs) (simp_all add: List.map_filter_simps split: option.splits)

lemma view_permissions_replaced:
  assumes "set ids \<subseteq> permission_id ` set (permissions db)"
  shows "map permission_id (role_permissions_of (replaced db rid ids) rid) = ids"
proof -
  have f: "\<And>p. p \<in> set ids \<Longrightarrow> \<exists>q. permission_of (replaced db rid ids) p = Some q \<and> permission_id q = p"
  proof -
    fix p assume "p \<in> set ids"
    with assms have "\<exists>q \<in> set (permissions db). permission_id q = p" by auto
    then have "find (\<lambda>q. permission_id q = p) (permissions db) \<noteq> None" by (auto simp: find_None_iff)
    then obtain q where q: "find (\<lambda>q. permission_id q = p) (permissions db) = Some q" by blast
    then have "permission_id q = p" by (auto simp: find_Some_iff)
    with q show "\<exists>q. permission_of (replaced db rid ids) p = Some q \<and> permission_id q = p"
      by (simp add: permission_of_def)
  qed
  have g: "\<And>xs. set xs \<subseteq> set ids \<Longrightarrow>
     map permission_id (List.map_filter (permission_of (replaced db rid ids)) xs) = xs"
  proof -
    fix xs show "set xs \<subseteq> set ids \<Longrightarrow>
      map permission_id (List.map_filter (permission_of (replaced db rid ids)) xs) = xs"
    proof (induction xs)
      case Nil
      then show ?case by (simp add: List.map_filter_simps)
    next
      case (Cons x xs)
      then obtain q where "permission_of (replaced db rid ids) x = Some q" "permission_id q = x"
        using f [of x] by auto
      with Cons show ?case by (simp add: List.map_filter_simps)
    qed
  qed
  have "filter (\<lambda>rp. rp_role_id rp = rid) (role_permissions (replaced db rid ids))
          = map (\<lambda>p. \<lparr>rp_role_id = rid, rp_permission_id = p\<rparr>) ids"
    by (simp add: replaced_def comp_def)
  then have "role_permissions_of (replaced db rid ids) rid = List.map_filter (permission_of (replaced db rid ids)) ids"
    by (simp add: role_permissions_of_def map_filter_map)
  with g [of ids] show ?thesis by simp
qed

lemma assign_missing_role:
  assumes "faults db = []" and "role_of db rid = None"
  shows "assignPermissions rid ids db = (Inl (Error ''Role not found''), db)"
  using assms
  by (simp add: assignPermissions_def role_findUnique_def prisma_call_healthy await_def throw_def)

lemma assign_count_mismatch:
  assumes "faults db = []" and "role_of db rid = Some r"
    and "length (filter (\<lambda>p. permission_id p \<in> set ids) (permissions db)) \<noteq> length ids"
  shows "assignPermissions rid ids db = (Inl (Error ''One or more permissions not found''), db)"
  using assms
  by (simp add: assignPermissions_def role_findUnique_def permission_findMany_in_def prisma_call_healthy
      await_def throw_def)

lemma assign_success:
  assumes "faults db = []" and "role_of db rid = Some r"
    and "length (filter (\<lambda>p. permission_id p \<in> set ids) (permissions db)) = length ids"
    and "distinct (role_permissions db)" and "distinct ids"
  shows "assignPermissions rid ids db = (Inr (role_view (replaced db rid ids) r), replaced db rid ids)"
proof -
  let ?db1 = "db\<lparr>role_permissions := filter (\<lambda>rp. rp_role_id rp \<noteq> rid) (role_permissions db)\<rparr>"
  have d: "distinct (role_permissions ?db1 @ map (\<lambda>p. \<lparr>rp_role_id = rid, rp_permission_id = p\<rparr>) ids)"
    using distinct_replaced [OF assms(4,5), of rid] by (simp add: replaced_def)
  have del: "rolePermission_deleteMany rid db = (Inr (), ?db1)"
    using assms(1) by (simp add: rolePermission_deleteMany_def prisma_call_healthy)
  have cre: "rolePermission_createMany (map (\<lambda>p. \<lparr>rp_role_id = rid, rp_permission_id = p\<rparr>) ids) ?db1
               = (Inr (), replaced db rid ids)"
    using assms(1) d by (simp add: rolePermission_createMany_def prisma_call_healthy replaced_def)
  have get: "getRoleById rid (replaced db rid ids) = (Inr (role_view (replaced db rid ids) r), replaced db rid ids)"
    using assms(1,2)
    by (simp add: getRoleById_def prisma_call_healthy await_def resolve_def role_of_def)
  show ?thesis
    using assms(1,2,3)
    by (simp add: assignPermissions_def role_findUnique_def permission_findMany_in_def prisma_call_healthy
        await_def del cre get)
qed

lemma replaced_role_of [simp]: "role_of (replaced db rid ids) x = role_of db x"
  by (simp add: role_of_def)

lemma replaced_primary_keys [simp]: "primary_keys (replaced db rid ids) = primary_keys db"
  by (simp add: primary_keys_def)

text \<open>
  C6, as amended. On a database that answers every call, with unique primary keys and a
  unique \<^verbatim>\<open>(role_id, permission_id)\<close> index: \<^verbatim>\<open>assignPermissions\<close> throws "Role not found"
  and writes nothing if the role does not exist; throws "One or more permissions not
  found" and writes nothing if some given id is the id of no permission; and for a list
  of pairwise different ids that all exist it returns the role, whose permissions are
  then exactly the given ids, in the given order, the rows of every other role
  untouched. Assigning \<open>[p1]\<close> and then \<open>[p2]\<close> leaves only \<open>p2\<close>. The replacement is a
  \<^verbatim>\<open>deleteMany\<close> followed by a \<^verbatim>\<open>createMany\<close>, two statements outside any transaction:
  nothing is stated for a database that fails in between, nor for a list that names an
  id twice.
\<close>

theorem assignPermissions_replaces:
  assumes "faults db = []" and "primary_keys db" and "distinct (role_permissions db)"
  shows "(role_of db roleId = None \<longrightarrow>
            assignPermissions roleId ids db = (Inl (Error ''Role not found''), db)) \<and>
         (role_of db roleId \<noteq> None \<and> \<not> set ids \<subseteq> permission_id ` set (permissions db) \<longrightarrow>
            assignPermissions roleId ids db = (Inl (Error ''One or more permissions not found''), db)) \<and>
         (role_of db roleId \<noteq> None \<and> set ids \<subseteq> permission_id ` set (permissions db) \<and> distinct ids \<longrightarrow>
            (\<exists>v db'. assignPermissions roleId ids db = (Inr v, db') \<and>
               assigned db' roleId = ids \<and>
               (\<forall>other. other \<noteq> roleId \<longrightarrow> assigned db' other = assigned db other) \<and>
               map permission_id (view_permissions v) = ids \<and>
               roles db' = roles db \<and> permissions db' = permissions db \<and>
               faults db' = [] \<and> distinct (role_permissions db'))) \<and>
         (role_of db roleId \<noteq> None \<and> p1 \<in> permission_id ` set (permissions db) \<and>
          p2 \<in> permission_id ` set (permissions db) \<longrightarrow>
            assigned (snd (assignPermissions roleId [p2] (snd (assignPermissions roleId [p1] db)))) roleId = [p2])"
proof -
  have pk: "distinct (map permission_id (permissions db))"
    using assms(2) by (simp add: primary_keys_def)
  have ok: "assignPermissions roleId xs d = (Inr (role_view (replaced d roleId xs) r), replaced d roleId xs)"
    if "faults d = []" "role_of d roleId = Some r" "distinct (map permission_id (permissions d))"
      "distinct (role_permissions d)" "set xs \<subseteq> permission_id ` set (permissions d)" "distinct xs"
    for d xs r
    using that found_all_iff [of "permissions d" xs] by (intro assign_success) simp_all
  have one: "assignPermissions roleId ids db = (Inl (Error ''Role not found''), db)"
    if "role_of db roleId = None"
    using assms(1) that by (rule assign_missing_role)
  have two: "assignPermissions roleId ids db = (Inl (Error ''One or more permissions not found''), db)"
    if "role_of db roleId \<noteq> None" "\<not> set ids \<subseteq> permission_id ` set (permissions db)"
  proof -
    from that(1) obtain r where "role_of db roleId = Some r" by blast
    then show ?thesis
      using assms(1) missing_id_rejected [OF pk that(2)] by (intro assign_count_mismatch)
  qed
  have three: "\<exists>v db'. assignPermissions roleId ids db = (Inr v, db') \<and>
               assigned db' roleId = ids \<and>
               (\<forall>other. other \<noteq> roleId \<longrightarrow> assigned db' other = assigned db other) \<and>
               map permission_id (view_permissions v) = ids \<and>
               roles db' = roles db \<and> permissions db' = permissions db \<and>
               faults db' = [] \<and> distinct (role_permissions db')"
    if "role_of db roleId \<noteq> None" "set ids \<subseteq> permission_id ` set (permissions db)" "distinct ids"
  proof -
    from that(1) obtain r where r: "role_of db roleId = Some r" by blast
    have v: "map permission_id (view_permissions (role_view (replaced db roleId ids) r)) = ids"
    proof -
      from r have "role_id r = roleId" by (auto simp: role_of_def find_Some_iff)
      with view_permissions_replaced [OF that(2), of roleId] show ?thesis
        by (simp add: role_view_def)
    qed
    show ?thesis
      unfolding ok [OF assms(1) r pk assms(3) that(2,3)]
      using v assms(1) distinct_replaced [OF assms(3) that(3), of roleId]
      by (intro exI conjI) (simp_all add: assigned_replaced assigned_replaced_other)
  qed
  have four: "assigned (snd (assignPermissions roleId [p2] (snd (assignPermissions roleId [p1] db)))) roleId = [p2]"
    if "role_of db roleId \<noteq> None" "p1 \<in> permission_id ` set (permissions db)"
      "p2 \<in> permission_id ` set (permissions db)"
  proof -
    from that(1) obtain r where r: "role_of db roleId = Some r" by blast
    have first: "assignPermissions roleId [p1] db
                   = (Inr (role_view (replaced db roleId [p1]) r), replaced db roleId [p1])"
      using that(2) by (intro ok [OF assms(1) r pk assms(3)]) simp_all
    have second: "assignPermissions roleId [p2] (replaced db roleId [p1])
                   = (Inr (role_view (replaced (replaced db roleId [p1]) roleId [p2]) r),
                      replaced (replaced db roleId [p1]) roleId [p2])"
      using that(3) assms(1) r pk distinct_replaced [OF assms(3), of "[p1]" roleId]
      by (intro ok) simp_all
    show ?thesis by (simp add: first second assigned_replaced)
  qed
  from one two three four show ?thesis by blast
qed

lemma demo_db_tables: "faults demo_db = []" "distinct (role_permissions demo_db)"
  by (simp_all add: demo_db_def)

theorem assignPermissions_replaces_witness:
  "faults demo_db = [] \<and> primary_keys demo_db \<and> distinct (role_permissions demo_db) \<and>
   assigned demo_db ''r1'' = [''p1''] \<and>
   fst (assignPermissions ''r9'' [''p1''] demo_db) = Inl (Error ''Role not found'') \<and>
   fst (assignPermissions ''r1'' [''p1'', ''p9''] demo_db) = Inl (Error ''One or more permissions not found'') \<and>
   assigned (snd (assignPermissions ''r1'' [''p2'', ''p1''] demo_db)) ''r1'' = [''p2'', ''p1''] \<and>
   assigned (snd (assignPermissions ''r1'' [''p2''] (snd (assignPermissions ''r1'' [''p1''] demo_db)))) ''r1'' = [''p2'']"
proof -
  note T = assignPermissions_replaces [OF demo_db_tables(1) demo_db_ok(2) demo_db_tables(2)]
  have r1: "role_of demo_db ''r1'' \<noteq> None" and r9: "role_of demo_db ''r9'' = None"
    by (simp_all add: role_of_def demo_db_def)
  have ids: "permission_id ` set (permissions demo_db) = {''p1'', ''p2''}"
    by (simp add: demo_db_def)
  have a: "assigned demo_db ''r1'' = [''p1'']" by (simp add: assigned_def demo_db_def)
  have c1: "fst (assignPermissions ''r9'' [''p1''] demo_db) = Inl (Error ''Role not found'')"
    using T [where roleId = "''r9''" and ids = "[''p1'']", THEN conjunct1] r9 by simp
  have c2: "fst (assignPermissions ''r1'' [''p1'', ''p9''] demo_db) = Inl (Error ''One or more permissions not found'')"
    using T [where roleId = "''r1''" and ids = "[''p1'', ''p9'']", THEN conjunct2, THEN conjunct1] r1
    by (simp add: ids)
  have "\<exists>v db'. assignPermissions ''r1'' [''p2'', ''p1''] demo_db = (Inr v, db') \<and>
               assigned db' ''r1'' = [''p2'', ''p1'']"
    using T [where roleId = "''r1''" and ids = "[''p2'', ''p1'']", THEN conjunct2, THEN conjunct2, THEN conjunct1] r1
    by (simp add: ids) blast
  then have c3: "assigned (snd (assignPermissions ''r1'' [''p2'', ''p1''] demo_db)) ''r1'' = [''p2'', ''p1'']"
    by auto
  have c4: "assigned (snd (assignPermissions ''r1'' [''p2''] (snd (assignPermissions ''r1'' [''p1''] demo_db)))) ''r1'' = [''p2'']"
    using T [where roleId = "''r1''" and ?p1.0 = "''p1''" and ?p2.0 = "''p2''",
        THEN conjunct2, THEN conjunct2, THEN conjunct2] r1
    by (simp add: ids)
  from demo_db_tables demo_db_ok(2) a c1 c2 c3 c4 show ?thesis by (intro conjI)
qed

text \<open>
  Two inputs at which the claim as stated fails. The replacement is not atomic: when the
  connection is lost between the two statements, the call throws, the old permission of
  the role is gone and the new one is not there. And a list that names an existing id
  twice is rejected as if an id were missing, since the check compares the number of rows
  found with the length of the list.
\<close>

theorem assignPermissions_counterexample:
  "role_of flaky_db ''r1'' \<noteq> None \<and>
   set [''p2''] \<subseteq> permission_id ` set (permissions flaky_db) \<and>
   assigned flaky_db ''r1'' = [''p1''] \<and>
   fst (assignPermissions ''r1'' [''p2''] flaky_db) = Inl (Error ''Connection terminated unexpectedly'') \<and>
   assigned (snd (assignPermissions ''r1'' [''p2''] flaky_db)) ''r1'' = [] \<and>
   role_of demo_db ''r1'' \<noteq> None \<and>
   set [''p1'', ''p1''] \<subseteq> permission_id ` set (permissions demo_db) \<and>
   assignPermissions ''r1'' [''p1'', ''p1''] demo_db =
     (Inl (Error ''One or more permissions not found''), demo_db)"
proof -
  have run: "assignPermissions ''r1'' [''p2''] flaky_db =
     (Inl (Error ''Connection terminated unexpectedly''),
      demo_db\<lparr>role_permissions := [\<lparr>rp_role_id = ''r2'', rp_permission_id = ''p2''\<rparr>], faults := []\<rparr>)"
    by (simp add: assignPermissions_def role_findUnique_def permission_findMany_in_def
        rolePermission_deleteMany_def rolePermission_createMany_def prisma_call_def await_def throw_def
        flaky_db_def demo_db_def role_of_def)
  have a: "role_of flaky_db ''r1'' \<noteq> None" by (simp add: role_of_def flaky_db_def demo_db_def)
  have b: "set [''p2''] \<subseteq> permission_id ` set (permissions flaky_db)"
    by (simp add: flaky_db_def demo_db_def)
  have c: "assigned flaky_db ''r1'' = [''p1'']" by (simp add: assigned_def flaky_db_def demo_db_def)
  have d: "fst (assignPermissions ''r1'' [''p2''] flaky_db) = Inl (Error ''Connection terminated unexpectedly'')"
    unfolding run by simp
  have e: "assigned (snd (assignPermissions ''r1'' [''p2''] flaky_db)) ''r1'' = []"
    unfolding run by (simp add: assigned_def)
  have f: "role_of demo_db ''r1'' \<noteq> None" by (simp add: role_of_def demo_db_def)
  have g: "set [''p1'', ''p1''] \<subseteq> permission_id ` set (permissions demo_db)"
    by (simp add: demo_db_def)
  have h: "assignPermissions ''r1'' [''p1'', ''p1''] demo_db =
     (Inl (Error ''One or more permissions not found''), demo_db)"
    by (simp add: assignPermissions_def role_findUnique_def permission_findMany_in_def
        prisma_call_def await_def throw_def demo_db_def role_of_def)
  from a b c d e f g h show ?thesis by (intro conjI)
qed

section \<open>Rate limiter\<close>

lemma redis_call_healthy: "redis_faults r = [] \<Longrightarrow> redis_call now key q r = q (purge now key r)"
  by (simp add: redis_call_def)

lemma purge_fields [simp]:
  "client (purge now key r) = client r" "redis_faults (purge now key r) = redis_faults r"
  by (simp_all add: purge_def split: option.splits)

lemma purge_other [simp]: "k \<noteq> key \<Longrightarrow> keys (purge now key r) k = keys r k"
  by (simp add: purge_def split: option.splits)

lemma zset_update_all [simp]: "z\<lparr>entries := a, expire_at := b\<rparr> = \<lparr>entries = a, expire_at = b\<rparr>"
  by (cases z) simp

lemmas limiter_defs = createRateLimiter_def limiter_body_def counted_def try_catch_def await_def
  resolve_def getRedis_def Let_def redis_call_healthy zRemRangeByScore_def zCard_def zAdd_def
  expire_def pTTL_def purge_def held_def

lemma limiter_admits:
  assumes "healthy r"
    and "int (length (counted now (windowMs opts) (limiter_key opts request) r)) < maxRequests opts"
  shows "createRateLimiter opts request now rnd r =
    (Inr ([(''X-RateLimit-Limit'', maxRequests opts),
           (''X-RateLimit-Remaining'', maxRequests opts
               - int (length (counted now (windowMs opts) (limiter_key opts request) r)) - 1),
           (''X-RateLimit-Reset'', ceil_seconds (windowMs opts))], Next),
     r\<lparr>keys := (keys r)(limiter_key opts request \<mapsto>
          \<lparr>entries = zadd_entry (now, rnd) now
                       (counted now (windowMs opts) (limiter_key opts request) r),
           expire_at = Some (now + ceil_seconds (windowMs opts) * 1000)\<rparr>)\<rparr>)"
proof -
  from assms(1) have h: "client r" "redis_faults r = []" by (simp_all add: healthy_def)
  show ?thesis
  proof (cases "keys r (limiter_key opts request)")
    case None
    with h assms(2) show ?thesis by (auto simp: limiter_defs)
  next
    case (Some z)
    show ?thesis
    proof (cases "expire_at z")
      case None
      with Some h assms(2) show ?thesis by (auto simp: limiter_defs)
    next
      case (Some t)
      with \<open>keys r (limiter_key opts request) = Some z\<close> h assms(2)
      show ?thesis by (cases "t \<le> now") (auto simp: limiter_defs)
    qed
  qed
qed

lemma limiter_rejects:
  assumes "healthy r"
    and "maxRequests opts \<le> int (length (counted now (windowMs opts) (limiter_key opts request) r))"
  shows "\<exists>resetTime r'. createRateLimiter opts request now rnd r =
    (Inr ([(''X-RateLimit-Limit'', maxRequests opts), (''X-RateLimit-Remaining'', 0),
           (''X-RateLimit-Reset'', resetTime), (''Retry-After'', resetTime)],
          Respond 429 (LimitBody (limitMessage opts) resetTime)), r') \<and>
     healthy r' \<and>
     held (limiter_key opts request) r'
        = counted now (windowMs opts) (limiter_key opts request) r \<and>
     (counted now (windowMs opts) (limiter_key opts request) r \<noteq> [] \<longrightarrow>
        keys r' (limiter_key opts request) =
          map_option (\<lambda>z. z\<lparr>entries := counted now (windowMs opts) (limiter_key opts request) r\<rparr>)
            (keys r (limiter_key opts request)))"
proof -
  from assms(1) have h: "client r" "redis_faults r = []" by (simp_all add: healthy_def)
  show ?thesis
  proof (cases "keys r (limiter_key opts request)")
    case None
    with h assms(2) show ?thesis by (auto simp: limiter_defs healthy_def)
  next
    case (Some z)
    show ?thesis
    proof (cases "expire_at z")
      case None
      with Some h assms(2) show ?thesis by (auto simp: limiter_defs healthy_def)
    next
      case (Some t)
      with \<open>keys r (limiter_key opts request) = Some z\<close> h assms(2)
      show ?thesis by (cases "t \<le> now") (auto simp: limiter_defs healthy_def)
    qed
  qed
qed

lemma ceil_seconds_covers: "ms \<le> ceil_seconds ms * 1000"
proof -
  have "real_of_int ms / 1000 \<le> real_of_int (ceil_seconds ms)"
    unfolding ceil_seconds_def by (rule le_of_int_ceiling)
  then have "real_of_int ms \<le> real_of_int (ceil_seconds ms * 1000)" by simp
  then show ?thesis by (simp only: of_int_le_iff)
qed

lemma one_window_iff: "one_window w qs \<longleftrightarrow> (\<forall>a \<in> set qs. \<forall>b \<in> set qs. fst a - fst b < w)"
  by (simp add: one_window_def list_all_iff)

lemma zadd_fresh: "q \<notin> set done \<Longrightarrow> zadd_entry q (fst q) (map stamp done) = map stamp (done @ [q])"
  by (induction "done") (auto simp: stamp_def)

lemma counted_recorded:
  assumes "keys r key = recorded w done" and "\<forall>d \<in> set done. now - fst d < w"
  shows "counted now w key r = map stamp done"
proof (cases "done = []")
  case True
  with assms(1) show ?thesis by (simp add: counted_def recorded_def purge_def)
next
  case False
  then have "last done \<in> set done" by simp
  with assms(2) have "now - fst (last done) < w" by blast
  with ceil_seconds_covers [of w] have live: "\<not> fst (last done) + ceil_seconds w * 1000 \<le> now" by linarith
  have "filter (\<lambda>e. \<not> (0 \<le> snd e \<and> snd e \<le> now - w)) (map stamp done) = map stamp done"
    using assms(2) by (auto simp: filter_id_conv stamp_def)
  with False assms(1) live show ?thesis by (simp add: counted_def recorded_def purge_def)
qed

lemma counted_elapsed:
  assumes "keys r key = recorded w done" and "\<forall>d \<in> set done. 0 \<le> fst d \<and> fst d + w \<le> now"
  shows "counted now w key r = []"
proof -
  have "filter (\<lambda>e. \<not> (0 \<le> snd e \<and> snd e \<le> now - w)) (map stamp done) = []"
    using assms(2) by (auto simp: filter_empty_conv stamp_def)
  with assms(1) show ?thesis
    by (simp add: counted_def recorded_def purge_def)
qed

lemma healthy_keys_update [simp]: "healthy (r\<lparr>keys := k\<rparr>) = healthy r"
  by (simp add: healthy_def)

lemma serve_admits:
  assumes "healthy r" and "keys r (limiter_key opts request) = recorded (windowMs opts) done"
    and "distinct (done @ qs)" and "one_window (windowMs opts) (done @ qs)"
    and "int (length (done @ qs)) \<le> maxRequests opts"
  shows "\<exists>as r'. serve opts request qs r = (as, r') \<and> map snd as = replicate (length qs) Next \<and>
           healthy r' \<and> keys r' (limiter_key opts request) = recorded (windowMs opts) (done @ qs)"
  using assms
proof (induction qs arbitrary: "done" r)
  case Nil
  then show ?case by simp
next
  case (Cons q qs)
  obtain now rnd where q: "q = (now, rnd)" by (cases q)
  have near: "\<forall>d \<in> set done. now - fst d < windowMs opts"
    using Cons.prems(4) by (simp add: one_window_iff q)
  have c: "counted now (windowMs opts) (limiter_key opts request) r = map stamp done"
    using Cons.prems(2) near by (rule counted_recorded)
  have room: "int (length (counted now (windowMs opts) (limiter_key opts request) r)) < maxRequests opts"
    using Cons.prems(5) by (simp add: c)
  have fresh: "q \<notin> set done" using Cons.prems(3) by simp
  let ?r1 = "r\<lparr>keys := (keys r)(limiter_key opts request \<mapsto>
          \<lparr>entries = map stamp (done @ [q]),
           expire_at = Some (now + ceil_seconds (windowMs opts) * 1000)\<rparr>)\<rparr>"
  have step: "createRateLimiter opts request now rnd r =
    (Inr ([(''X-RateLimit-Limit'', maxRequests opts),
           (''X-RateLimit-Remaining'', maxRequests opts - int (length done) - 1),
           (''X-RateLimit-Reset'', ceil_seconds (windowMs opts))], Next), ?r1)"
    using limiter_admits [OF Cons.prems(1) room, of rnd] zadd_fresh [OF fresh]
    by (simp add: c q)
  have k1: "keys ?r1 (limiter_key opts request) = recorded (windowMs opts) (done @ [q])"
    by (simp add: recorded_def q)
  have "\<exists>as r'. serve opts request qs ?r1 = (as, r') \<and> map snd as = replicate (length qs) Next \<and>
           healthy r' \<and> keys r' (limiter_key opts request) = recorded (windowMs opts) ((done @ [q]) @ qs)"
    using Cons.prems(1,3,4,5) k1 by (intro Cons.IH) simp_all
  then obtain as r' where rest: "serve opts request qs ?r1 = (as, r')"
    "map snd as = replicate (length qs) Next" "healthy r'"
    "keys r' (limiter_key opts request) = recorded (windowMs opts) (done @ q # qs)"
    by auto
  have "serve opts request (q # qs) r =
          (([(''X-RateLimit-Limit'', maxRequests opts),
             (''X-RateLimit-Remaining'', maxRequests opts - int (length done) - 1),
             (''X-RateLimit-Reset'', ceil_seconds (windowMs opts))], Next) # as, r')"
    by (simp only: q serve.simps step [unfolded q] rest(1) [unfolded q] prod.case sum.case)
  with rest(2-4) show ?case by simp
qed

lemma one_window_prefix: "one_window w (xs @ ys) \<Longrightarrow> one_window w xs"
  by (auto simp: one_window_iff)

text \<open>
  C7. With a Redis that answers, a request at time \<open>now\<close> counts the timestamps of its
  key that are left once the entries with a score from 0 to \<open>now - windowMs\<close> are
  dropped (an expired key holds none). If the count is at least \<open>max\<close> the answer is 429
  with \<^verbatim>\<open>X-RateLimit-Limit\<close>, \<^verbatim>\<open>X-RateLimit-Remaining: 0\<close>, \<^verbatim>\<open>X-RateLimit-Reset\<close> and
  \<^verbatim>\<open>Retry-After\<close>, and nothing is recorded. Otherwise the timestamp is recorded, the key
  expires \<open>ceil(windowMs / 1000)\<close> seconds later, the three informational headers are set
  and \<^verbatim>\<open>next()\<close> is called. So when \<open>max\<close> requests with different members, on a key that
  was absent, and one more request all fall into one window, the first \<open>max\<close> are let
  through and the last one gets the 429; and a request that comes when every recorded
  timestamp is at least a window old is let through again (for a positive \<open>max\<close> and
  timestamps that are not negative).
\<close>

theorem rate_limiter_window:
  assumes "healthy r"
  shows "(maxRequests opts \<le> int (length (counted now (windowMs opts) (limiter_key opts request) r)) \<longrightarrow>
            (\<exists>resetTime r'. createRateLimiter opts request now rnd r =
               (Inr ([(''X-RateLimit-Limit'', maxRequests opts), (''X-RateLimit-Remaining'', 0),
                      (''X-RateLimit-Reset'', resetTime), (''Retry-After'', resetTime)],
                     Respond 429 (LimitBody (limitMessage opts) resetTime)), r') \<and>
               held (limiter_key opts request) r' = counted now (windowMs opts) (limiter_key opts request) r)) \<and>
         (int (length (counted now (windowMs opts) (limiter_key opts request) r)) < maxRequests opts \<longrightarrow>
            createRateLimiter opts request now rnd r =
              (Inr ([(''X-RateLimit-Limit'', maxRequests opts),
                     (''X-RateLimit-Remaining'', maxRequests opts
                        - int (length (counted now (windowMs opts) (limiter_key opts request) r)) - 1),
                     (''X-RateLimit-Reset'', ceil_seconds (windowMs opts))], Next),
               r\<lparr>keys := (keys r)(limiter_key opts request \<mapsto>
                    \<lparr>entries = zadd_entry (now, rnd) now
                                 (counted now (windowMs opts) (limiter_key opts request) r),
                     expire_at = Some (now + ceil_seconds (windowMs opts) * 1000)\<rparr>)\<rparr>)) \<and>
         (keys r (limiter_key opts request) = None \<and> int (length ws) = maxRequests opts \<and>
          distinct (ws @ [(now, rnd)]) \<and> one_window (windowMs opts) (ws @ [(now, rnd)]) \<longrightarrow>
            map snd (fst (serve opts request ws r)) = replicate (length ws) Next \<and>
            (\<exists>resetTime. fst (createRateLimiter opts request now rnd (snd (serve opts request ws r))) =
               Inr ([(''X-RateLimit-Limit'', maxRequests opts), (''X-RateLimit-Remaining'', 0),
                     (''X-RateLimit-Reset'', resetTime), (''Retry-After'', resetTime)],
                    Respond 429 (LimitBody (limitMessage opts) resetTime))) \<and>
            (0 < maxRequests opts \<and> (\<forall>a \<in> set ws. 0 \<le> fst a \<and> fst a + windowMs opts \<le> later) \<longrightarrow>
               fst (createRateLimiter opts request later rnd'
                      (snd (createRateLimiter opts request now rnd (snd (serve opts request ws r))))) =
               Inr ([(''X-RateLimit-Limit'', maxRequests opts),
                     (''X-RateLimit-Remaining'', maxRequests opts - 1),
                     (''X-RateLimit-Reset'', ceil_seconds (windowMs opts))], Next)))"
proof -
  let ?key = "limiter_key opts request"
  let ?w = "windowMs opts"
  have A: "\<exists>resetTime r'. createRateLimiter opts request now rnd r =
               (Inr ([(''X-RateLimit-Limit'', maxRequests opts), (''X-RateLimit-Remaining'', 0),
                      (''X-RateLimit-Reset'', resetTime), (''Retry-After'', resetTime)],
                     Respond 429 (LimitBody (limitMessage opts) resetTime)), r') \<and>
               held ?key r' = counted now ?w ?key r"
    if "maxRequests opts \<le> int (length (counted now ?w ?key r))"
    using limiter_rejects [OF assms that, of rnd] by blast
  have B: "createRateLimiter opts request now rnd r =
              (Inr ([(''X-RateLimit-Limit'', maxRequests opts),
                     (''X-RateLimit-Remaining'', maxRequests opts - int (length (counted now ?w ?key r)) - 1),
                     (''X-RateLimit-Reset'', ceil_seconds ?w)], Next),
               r\<lparr>keys := (keys r)(?key \<mapsto>
                    \<lparr>entries = zadd_entry (now, rnd) now (counted now ?w ?key r),
                     expire_at = Some (now + ceil_seconds ?w * 1000)\<rparr>)\<rparr>)"
    if "int (length (counted now ?w ?key r)) < maxRequests opts"
    using assms that by (rule limiter_admits)
  have C: "map snd (fst (serve opts request ws r)) = replicate (length ws) Next \<and>
            (\<exists>resetTime. fst (createRateLimiter opts request now rnd (snd (serve opts request ws r))) =
               Inr ([(''X-RateLimit-Limit'', maxRequests opts), (''X-RateLimit-Remaining'', 0),
                     (''X-RateLimit-Reset'', resetTime), (''Retry-After'', resetTime)],
                    Respond 429 (LimitBody (limitMessage opts) resetTime))) \<and>
            (0 < maxRequests opts \<and> (\<forall>a \<in> set ws. 0 \<le> fst a \<and> fst a + ?w \<le> later) \<longrightarrow>
               fst (createRateLimiter opts request later rnd'
                      (snd (createRateLimiter opts request now rnd (snd (serve opts request ws r))))) =
               Inr ([(''X-RateLimit-Limit'', maxRequests opts),
                     (''X-RateLimit-Remaining'', maxRequests opts - 1),
                     (''X-RateLimit-Reset'', ceil_seconds ?w)], Next))"
    if fresh: "keys r ?key = None" and full: "int (length ws) = maxRequests opts"
      and dist: "distinct (ws @ [(now, rnd)])" and win: "one_window ?w (ws @ [(now, rnd)])"
  proof -
    have "\<exists>as r'. serve opts request ws r = (as, r') \<and> map snd as = replicate (length ws) Next \<and>
           healthy r' \<and> keys r' ?key = recorded ?w ([] @ ws)"
      using assms fresh dist full one_window_prefix [OF win]
      by (intro serve_admits) (simp_all add: recorded_def)
    then obtain as r1 where run: "serve opts request ws r = (as, r1)"
      "map snd as = replicate (length ws) Next" "healthy r1" "keys r1 ?key = recorded ?w ws"
      by auto
    have near: "\<forall>d \<in> set ws. now - fst d < ?w"
      using win by (simp add: one_window_iff)
    have c: "counted now ?w ?key r1 = map stamp ws"
      using run(4) near by (rule counted_recorded)
    have "maxRequests opts \<le> int (length (counted now ?w ?key r1))"
      using full by (simp add: c)
    from limiter_rejects [OF run(3) this, of rnd]
    obtain resetTime r2 where rej: "createRateLimiter opts request now rnd r1 =
        (Inr ([(''X-RateLimit-Limit'', maxRequests opts), (''X-RateLimit-Remaining'', 0),
               (''X-RateLimit-Reset'', resetTime), (''Retry-After'', resetTime)],
              Respond 429 (LimitBody (limitMessage opts) resetTime)), r2)"
      and h2: "healthy r2"
      and k2: "counted now ?w ?key r1 \<noteq> [] \<longrightarrow>
                 keys r2 ?key = map_option (\<lambda>z. z\<lparr>entries := counted now ?w ?key r1\<rparr>) (keys r1 ?key)"
      by blast
    have again: "fst (createRateLimiter opts request later rnd' r2) =
               Inr ([(''X-RateLimit-Limit'', maxRequests opts),
                     (''X-RateLimit-Remaining'', maxRequests opts - 1),
                     (''X-RateLimit-Reset'', ceil_seconds ?w)], Next)"
      if pos: "0 < maxRequests opts" and old: "\<forall>a \<in> set ws. 0 \<le> fst a \<and> fst a + ?w \<le> later"
    proof -
      from pos full have ne: "ws \<noteq> []" by auto
      with k2 c run(4) have "keys r2 ?key = recorded ?w ws" by (simp add: recorded_def)
      then have e: "counted later ?w ?key r2 = []" using old by (rule counted_elapsed)
      with pos have "int (length (counted later ?w ?key r2)) < maxRequests opts" by simp
      from limiter_admits [OF h2 this, of rnd'] show ?thesis by (simp add: e)
    qed
    show ?thesis
      using run(2) rej again by (simp add: run(1))
  qed
  from A B C show ?thesis by blast
qed

theorem rate_limiter_window_witness:
  "healthy fresh_redis \<and>
   map snd (fst (serve demo_options ''10.0.0.7'' [(1000, 1), (2000, 2)] fresh_redis)) = [Next, Next] \<and>
   (\<exists>resetTime. fst (createRateLimiter demo_options ''10.0.0.7'' 3000 3
                        (snd (serve demo_options ''10.0.0.7'' [(1000, 1), (2000, 2)] fresh_redis))) =
      Inr ([(''X-RateLimit-Limit'', 2), (''X-RateLimit-Remaining'', 0),
            (''X-RateLimit-Reset'', resetTime), (''Retry-After'', resetTime)],
           Respond 429 (LimitBody ''Too many requests. Please slow down.'' resetTime))) \<and>
   fst (createRateLimiter demo_options ''10.0.0.7'' 62000 4
          (snd (createRateLimiter demo_options ''10.0.0.7'' 3000 3
             (snd (serve demo_options ''10.0.0.7'' [(1000, 1), (2000, 2)] fresh_redis))))) =
     Inr ([(''X-RateLimit-Limit'', 2), (''X-RateLimit-Remaining'', 1), (''X-RateLimit-Reset'', 60)], Next)"
proof -
  have h: "healthy fresh_redis" by (simp add: healthy_def fresh_redis_def)
  have o: "maxRequests demo_options = 2" "windowMs demo_options = 60000"
    "limitMessage demo_options = ''Too many requests. Please slow down.''"
    by (simp_all add: demo_options_def)
  have c: "ceil_seconds 60000 = 60" by (simp add: ceil_seconds_def)
  have pre: "keys fresh_redis (limiter_key demo_options ''10.0.0.7'') = None \<and>
             int (length [(1000::int, 1::nat), (2000, 2)]) = maxRequests demo_options \<and>
             distinct ([(1000::int, 1::nat), (2000, 2)] @ [(3000, 3)]) \<and>
             one_window (windowMs demo_options) ([(1000::int, 1::nat), (2000, 2)] @ [(3000, 3)])"
    by (simp add: fresh_redis_def o one_window_def)
  have old: "0 < maxRequests demo_options \<and>
             (\<forall>a \<in> set [(1000::int, 1::nat), (2000, 2)]. 0 \<le> fst a \<and> fst a + windowMs demo_options \<le> 62000)"
    by (simp add: o)
  note W = rate_limiter_window [OF h, where opts = demo_options and request = "''10.0.0.7''"
      and ws = "[(1000, 1), (2000, 2)]" and now = 3000 and rnd = 3 and later = 62000 and rnd' = 4,
      THEN conjunct2, THEN conjunct2, rule_format, OF pre]
  from W have w1: "map snd (fst (serve demo_options ''10.0.0.7'' [(1000, 1), (2000, 2)] fresh_redis)) = [Next, Next]"
    by (simp add: numeral_2_eq_2)
  from W have w2: "\<exists>resetTime. fst (createRateLimiter demo_options ''10.0.0.7'' 3000 3
                        (snd (serve demo_options ''10.0.0.7'' [(1000, 1), (2000, 2)] fresh_redis))) =
      Inr ([(''X-RateLimit-Limit'', 2), (''X-RateLimit-Remaining'', 0),
            (''X-RateLimit-Reset'', resetTime), (''Retry-After'', resetTime)],
           Respond 429 (LimitBody ''Too many requests. Please slow down.'' resetTime))"
    unfolding o by (rule conjunct1 [OF conjunct2])
  from W old have w3: "fst (createRateLimiter demo_options ''10.0.0.7'' 62000 4
          (snd (createRateLimiter demo_options ''10.0.0.7'' 3000 3
             (snd (serve demo_options ''10.0.0.7'' [(1000, 1), (2000, 2)] fresh_redis))))) =
     Inr ([(''X-RateLimit-Limit'', 2), (''X-RateLimit-Remaining'', 1), (''X-RateLimit-Reset'', 60)], Next)"
    unfolding o c by simp
  from h w1 w2 w3 show ?thesis by (intro conjI)
qed

section \<open>Infrastructure errors\<close>

lemma calm_fields [simp]:
  "client (calm r) = client r" "keys (calm r) = keys r" "redis_faults (calm r) = []"
  by (simp_all add: calm_def)

lemma calm_restore: "(calm r)\<lparr>redis_faults := redis_faults r\<rparr> = r"
  by (simp add: calm_def)

lemma purge_faults: "purge now key (r\<lparr>redis_faults := fs\<rparr>) = (purge now key r)\<lparr>redis_faults := fs\<rparr>"
  by (simp add: purge_def split: option.splits)

lemma counted_calm [simp]: "counted now w key (calm r) = counted now w key r"
  by (simp add: counted_def calm_def purge_faults)

lemma commands_issued_calm [simp]: "commands_issued opts request now (calm r) = commands_issued opts request now r"
  by (simp add: commands_issued_def)

text \<open>
  One command under a list of coming faults: it answers as on a connection that never
  fails when its turn is free, and throws, leaving the store as it was, when its turn
  holds an exception.
\<close>

lemma await_redis:
  assumes h: "redis_faults c = []"
    and tr: "\<And>x t. q (x\<lparr>redis_faults := t\<rparr>) = (fst (q x), (snd (q x))\<lparr>redis_faults := t\<rparr>)"
    and res: "redis_call now key q c = (Inr a, c')"
  shows "await (redis_call now key q) k (c\<lparr>redis_faults := fs\<rparr>) =
           (case fs of
              [] \<Rightarrow> k a (c'\<lparr>redis_faults := []\<rparr>)
            | None # t \<Rightarrow> k a (c'\<lparr>redis_faults := t\<rparr>)
            | Some e # t \<Rightarrow> (Inl e, c\<lparr>redis_faults := t\<rparr>))"
proof -
  from res h have q: "q (purge now key c) = (Inr a, c')" by (simp add: redis_call_healthy)
  have pass: "q (purge now key (c\<lparr>redis_faults := t\<rparr>)) = (Inr a, c'\<lparr>redis_faults := t\<rparr>)" for t
    by (simp add: purge_faults tr q)
  show ?thesis
  proof (cases fs)
    case Nil
    then show ?thesis by (simp add: await_def redis_call_def pass)
  next
    case (Cons f t)
    then show ?thesis by (cases f) (simp_all add: await_def redis_call_def pass)
  qed
qed

lemma returns_healthy:
  assumes "redis_faults c = []"
  shows "\<exists>a c'. zRemRangeByScore now key lo hi c = (Inr a, c') \<and> redis_faults c' = [] \<and> client c' = client c"
    and "\<exists>a c'. zCard now key c = (Inr a, c') \<and> redis_faults c' = [] \<and> client c' = client c"
    and "\<exists>a c'. pTTL now key c = (Inr a, c') \<and> redis_faults c' = [] \<and> client c' = client c"
    and "\<exists>a c'. zAdd now key sc m c = (Inr a, c') \<and> redis_faults c' = [] \<and> client c' = client c"
    and "\<exists>a c'. expire now key secs c = (Inr a, c') \<and> redis_faults c' = [] \<and> client c' = client c"
  using assms
  by (auto simp: zRemRangeByScore_def zCard_def pTTL_def zAdd_def expire_def redis_call_healthy Let_def
      split: option.splits)

lemma await_zRem:
  assumes "redis_faults c = []" and "zRemRangeByScore now key lo hi c = (Inr a, c')"
  shows "await (zRemRangeByScore now key lo hi) k (c\<lparr>redis_faults := fs\<rparr>) =
           (case fs of [] \<Rightarrow> k a (c'\<lparr>redis_faults := []\<rparr>) | None # t \<Rightarrow> k a (c'\<lparr>redis_faults := t\<rparr>)
            | Some e # t \<Rightarrow> (Inl e, c\<lparr>redis_faults := t\<rparr>))"
  using assms unfolding zRemRangeByScore_def
  by (intro await_redis) (simp_all add: Let_def split: option.splits)

lemma await_zCard:
  assumes "redis_faults c = []" and "zCard now key c = (Inr a, c')"
  shows "await (zCard now key) k (c\<lparr>redis_faults := fs\<rparr>) =
           (case fs of [] \<Rightarrow> k a (c'\<lparr>redis_faults := []\<rparr>) | None # t \<Rightarrow> k a (c'\<lparr>redis_faults := t\<rparr>)
            | Some e # t \<Rightarrow> (Inl e, c\<lparr>redis_faults := t\<rparr>))"
  using assms unfolding zCard_def
  by (intro await_redis) (simp_all add: Let_def split: option.splits)

lemma await_pTTL:
  assumes "redis_faults c = []" and "pTTL now key c = (Inr a, c')"
  shows "await (pTTL now key) k (c\<lparr>redis_faults := fs\<rparr>) =
           (case fs of [] \<Rightarrow> k a (c'\<lparr>redis_faults := []\<rparr>) | None # t \<Rightarrow> k a (c'\<lparr>redis_faults := t\<rparr>)
            | Some e # t \<Rightarrow> (Inl e, c\<lparr>redis_faults := t\<rparr>))"
  using assms unfolding pTTL_def
  by (intro await_redis) (simp_all add: Let_def split: option.splits)

lemma await_zAdd:
  assumes "redis_faults c = []" and "zAdd now key sc m c = (Inr a, c')"
  shows "await (zAdd now key sc m) k (c\<lparr>redis_faults := fs\<rparr>) =
           (case fs of [] \<Rightarrow> k a (c'\<lparr>redis_faults := []\<rparr>) | None # t \<Rightarrow> k a (c'\<lparr>redis_faults := t\<rparr>)
            | Some e # t \<Rightarrow> (Inl e, c\<lparr>redis_faults := t\<rparr>))"
  using assms unfolding zAdd_def
  by (intro await_redis) (simp_all add: Let_def split: option.splits)

lemma await_expire:
  assumes "redis_faults c = []" and "expire now key secs c = (Inr a, c')"
  shows "await (expire now key secs) k (c\<lparr>redis_faults := fs\<rparr>) =
           (case fs of [] \<Rightarrow> k a (c'\<lparr>redis_faults := []\<rparr>) | None # t \<Rightarrow> k a (c'\<lparr>redis_faults := t\<rparr>)
            | Some e # t \<Rightarrow> (Inl e, c\<lparr>redis_faults := t\<rparr>))"
  using assms unfolding expire_def
  by (intro await_redis) (simp_all add: Let_def split: option.splits)


lemma await_getRedis: "client s \<Longrightarrow> await getRedis k s = k () s"
  by (simp add: await_def getRedis_def)

lemma quiet_numerals:
  "quiet 3 fs = quiet (Suc (Suc (Suc 0))) fs" "quiet 4 fs = quiet (Suc (Suc (Suc (Suc 0)))) fs"
  by (simp_all add: numeral_3_eq_3 eval_nat_numeral)

lemma zcard_counts:
  assumes "redis_faults c = []"
    and "zRemRangeByScore now key 0 (now - w) c = (Inr a1, c1)" and "zCard now key c1 = (Inr a2, c2)"
  shows "a2 = int (length (counted now w key c))"
proof (cases "keys c key")
  case None
  with assms show ?thesis
    by (auto simp: zRemRangeByScore_def zCard_def redis_call_healthy counted_def purge_def Let_def)
next
  case (Some z)
  show ?thesis
  proof (cases "expire_at z")
    case None
    with Some assms show ?thesis
      by (auto simp: zRemRangeByScore_def zCard_def redis_call_healthy counted_def purge_def Let_def
          split: if_splits)
  next
    case (Some t)
    with \<open>keys c key = Some z\<close> assms show ?thesis
      by (cases "t \<le> now")
         (auto simp: zRemRangeByScore_def zCard_def redis_call_healthy counted_def purge_def Let_def
          split: if_splits)
  qed
qed

text \<open>
  The \<^verbatim>\<open>try\<close> block under a list of coming faults: it returns what it returns on a
  connection that never fails when none of the commands it issues throws, and it throws
  as soon as one of them does.
\<close>

lemma body_under_faults:
  assumes c: "client c" "redis_faults c = []"
  shows "(quiet (commands_issued opts request now c) fs \<longrightarrow>
            fst (limiter_body opts request now rnd (c\<lparr>redis_faults := fs\<rparr>)) =
            fst (limiter_body opts request now rnd c)) \<and>
         (\<not> quiet (commands_issued opts request now c) fs \<longrightarrow>
            (\<exists>e. fst (limiter_body opts request now rnd (c\<lparr>redis_faults := fs\<rparr>)) = Inl e))"
proof -
  let ?key = "limiter_key opts request"
  let ?w = "windowMs opts"
  obtain a1 c1 where z1: "zRemRangeByScore now ?key 0 (now - ?w) c = (Inr a1, c1)"
    and h1: "redis_faults c1 = []"
    using returns_healthy(1) [OF c(2)] by blast
  obtain a2 c2 where z2: "zCard now ?key c1 = (Inr a2, c2)" and h2: "redis_faults c2 = []"
    using returns_healthy(2) [OF h1] by blast
  obtain a3 c3 where z3: "pTTL now ?key c2 = (Inr a3, c3)"
    using returns_healthy(3) [OF h2] by blast
  obtain a4 c4 where z4: "zAdd now ?key now (now, rnd) c2 = (Inr a4, c4)" and h4: "redis_faults c4 = []"
    using returns_healthy(4) [OF h2] by blast
  obtain a5 c5 where z5: "expire now ?key (ceil_seconds ?w) c4 = (Inr a5, c5)"
    using returns_healthy(5) [OF h4] by blast
  have count: "a2 = int (length (counted now ?w ?key c))"
    using c(2) z1 z2 by (rule zcard_counts)
  have plain: "c\<lparr>redis_faults := []\<rparr> = c" "c1\<lparr>redis_faults := []\<rparr> = c1" "c2\<lparr>redis_faults := []\<rparr> = c2"
    "c4\<lparr>redis_faults := []\<rparr> = c4"
    using c(2) h1 h2 h4 by simp_all
  note steps = await_zRem [OF c(2) z1] await_zCard [OF h1 z2] await_pTTL [OF h2 z3]
    await_zAdd [OF h2 z4] await_expire [OF h4 z5]
  have body: "limiter_body opts request now rnd (c\<lparr>redis_faults := fs\<rparr>) =
      await (zRemRangeByScore now ?key 0 (now - ?w)) (\<lambda>_.
       await (zCard now ?key) (\<lambda>requestCount.
         if requestCount \<ge> maxRequests opts
         then
           await (pTTL now ?key) (\<lambda>ttl.
             let resetTime = (if ttl > 0 then ceil_seconds ttl else ceil_seconds ?w) in
             resolve ([(''X-RateLimit-Limit'', maxRequests opts), (''X-RateLimit-Remaining'', 0),
                       (''X-RateLimit-Reset'', resetTime), (''Retry-After'', resetTime)],
                      Respond 429 (LimitBody (limitMessage opts) resetTime)))
         else
           await (zAdd now ?key now (now, rnd)) (\<lambda>_.
           await (expire now ?key (ceil_seconds ?w)) (\<lambda>_.
             resolve ([(''X-RateLimit-Limit'', maxRequests opts),
                       (''X-RateLimit-Remaining'', maxRequests opts - requestCount - 1),
                       (''X-RateLimit-Reset'', ceil_seconds ?w)],
                      Next))))) (c\<lparr>redis_faults := fs\<rparr>)" for fs
    using c(1) by (simp add: limiter_body_def await_getRedis Let_def)
  show ?thesis
  proof (cases "maxRequests opts \<le> a2")
    case True
    then have n: "commands_issued opts request now c = 3"
      by (simp add: commands_issued_def count)
    have healthy_run: "fst (limiter_body opts request now rnd c) =
        Inr ([(''X-RateLimit-Limit'', maxRequests opts), (''X-RateLimit-Remaining'', 0),
              (''X-RateLimit-Reset'', (if a3 > 0 then ceil_seconds a3 else ceil_seconds ?w)),
              (''Retry-After'', (if a3 > 0 then ceil_seconds a3 else ceil_seconds ?w))],
             Respond 429 (LimitBody (limitMessage opts) (if a3 > 0 then ceil_seconds a3 else ceil_seconds ?w)))"
    proof -
      have "fst (limiter_body opts request now rnd (c\<lparr>redis_faults := []\<rparr>)) =
        Inr ([(''X-RateLimit-Limit'', maxRequests opts), (''X-RateLimit-Remaining'', 0),
              (''X-RateLimit-Reset'', (if a3 > 0 then ceil_seconds a3 else ceil_seconds ?w)),
              (''Retry-After'', (if a3 > 0 then ceil_seconds a3 else ceil_seconds ?w))],
             Respond 429 (LimitBody (limitMessage opts) (if a3 > 0 then ceil_seconds a3 else ceil_seconds ?w)))"
        using True by (simp add: body steps Let_def resolve_def)
      then show ?thesis by (simp only: plain(1))
    qed
    show ?thesis
      unfolding n quiet_numerals healthy_run
      using True
      by (auto simp: body steps Let_def resolve_def split: list.splits option.splits)
  next
    case False
    then have n: "commands_issued opts request now c = 4"
      by (simp add: commands_issued_def count)
    have healthy_run: "fst (limiter_body opts request now rnd c) =
        Inr ([(''X-RateLimit-Limit'', maxRequests opts),
              (''X-RateLimit-Remaining'', maxRequests opts - a2 - 1),
              (''X-RateLimit-Reset'', ceil_seconds ?w)], Next)"
    proof -
      have "fst (limiter_body opts request now rnd (c\<lparr>redis_faults := []\<rparr>)) =
        Inr ([(''X-RateLimit-Limit'', maxRequests opts),
              (''X-RateLimit-Remaining'', maxRequests opts - a2 - 1),
              (''X-RateLimit-Reset'', ceil_seconds ?w)], Next)"
        using False by (simp add: body steps Let_def resolve_def)
      then show ?thesis by (simp only: plain(1))
    qed
    show ?thesis
      unfolding n quiet_numerals healthy_run
      using False
      by (auto simp: body steps Let_def resolve_def split: list.splits option.splits)
  qed
qed

lemma create_fst:
  "fst (createRateLimiter opts request now rnd r) =
     (case fst (limiter_body opts request now rnd r) of Inl e \<Rightarrow> Inr ([], Next) | Inr a \<Rightarrow> Inr a)"
  by (cases "limiter_body opts request now rnd r"; cases "fst (limiter_body opts request now rnd r)")
     (simp_all add: createRateLimiter_def try_catch_def resolve_def)

text \<open>The middleware: what the \<^verbatim>\<open>catch\<close> block makes of the two cases.\<close>

lemma limiter_under_faults:
  "(client r \<and> quiet (commands_issued opts request now r) (redis_faults r) \<longrightarrow>
      fst (createRateLimiter opts request now rnd r) = fst (createRateLimiter opts request now rnd (calm r))) \<and>
   (\<not> client r \<or> \<not> quiet (commands_issued opts request now r) (redis_faults r) \<longrightarrow>
      fst (createRateLimiter opts request now rnd r) = Inr ([], Next))"
proof (cases "client r")
  case False
  then have "fst (limiter_body opts request now rnd r) =
               Inl (Error ''Redis client not initialized. Call initRedis() first.'')"
    by (simp add: limiter_body_def await_def getRedis_def)
  with False show ?thesis by (simp add: create_fst)
next
  case True
  then have c: "client (calm r)" "redis_faults (calm r) = []" by simp_all
  from body_under_faults [OF c, of opts request now "redis_faults r" rnd]
  have q: "quiet (commands_issued opts request now r) (redis_faults r) \<Longrightarrow>
             fst (limiter_body opts request now rnd r) = fst (limiter_body opts request now rnd (calm r))"
    and n: "\<not> quiet (commands_issued opts request now r) (redis_faults r) \<Longrightarrow>
             \<exists>e. fst (limiter_body opts request now rnd r) = Inl e"
    by (simp_all add: calm_restore)
  have "fst (createRateLimiter opts request now rnd r) = fst (createRateLimiter opts request now rnd (calm r))"
    if "quiet (commands_issued opts request now r) (redis_faults r)"
    using q [OF that] by (simp add: create_fst)
  moreover have "fst (createRateLimiter opts request now rnd r) = Inr ([], Next)"
    if "\<not> quiet (commands_issued opts request now r) (redis_faults r)"
    using n [OF that] by (auto simp: create_fst)
  ultimately show ?thesis using True by blast
qed

lemma healthy_calm: "client r \<Longrightarrow> healthy (calm r)"
  by (simp add: healthy_def)

lemma demo_role_names:
  "role_names demo_db ''u1'' = {''admin'', ''editor''}"
  "role_names demo_db ''u2'' = {''admin''}"
  "role_names demo_db ''u3'' = {}"
  by (simp_all add: role_names_def demo_db_def insert_commute)

lemmas limiter_eval = createRateLimiter_def limiter_body_def try_catch_def await_def resolve_def getRedis_def
  Let_def zRemRangeByScore_def zCard_def pTTL_def zAdd_def expire_def redis_call_def purge_def
  limiter_key_def demo_options_def busy_redis_def fresh_redis_def lost_redis_def down_redis_def fading_def
  ceil_seconds_def

lemma demo_counted:
  "counted 3000 (windowMs demo_options) (limiter_key demo_options ''10.0.0.7'') busy_redis =
     [((1000, 1), 1000), ((2000, 2), 2000)]"
  "counted 3000 (windowMs demo_options) (limiter_key demo_options ''10.0.0.7'') (fading busy_redis) =
     [((1000, 1), 1000), ((2000, 2), 2000)]"
  "counted 3000 (windowMs demo_options) (limiter_key demo_options ''10.0.0.7'') (busy_redis\<lparr>redis_faults := fs\<rparr>) =
     [((1000, 1), 1000), ((2000, 2), 2000)]"
  "counted 3000 (windowMs demo_options) (limiter_key demo_options ''10.0.0.7'') (fresh_redis\<lparr>redis_faults := fs\<rparr>) = []"
  "counted 1000 (windowMs demo_options) (limiter_key demo_options ''10.0.0.7'') lost_redis = []"
  "counted 1000 (windowMs demo_options) (limiter_key demo_options ''10.0.0.7'') down_redis = []"
  by (simp_all add: counted_def purge_def limiter_key_def demo_options_def busy_redis_def fresh_redis_def
      lost_redis_def down_redis_def fading_def)

text \<open>
  C1, as amended. Only the rate limiter fails open, and only on infrastructure errors.
  On a policy violation the limiter fails closed: when the key already counts \<^verbatim>\<open>max\<close>
  requests in the window and none of the three commands of the request throws, the
  answer is 429 with \<^verbatim>\<open>X-RateLimit-Remaining: 0\<close>. When the Redis client is not
  initialised, or any of the commands the request issues throws, the limiter sets no
  header and calls \<^verbatim>\<open>next()\<close>. The authorization checks fail closed on both. With the
  lookup answered and a user id present, \<^verbatim>\<open>hasRole\<close> answers 403 when the user holds
  none of the allowed roles (and calls \<^verbatim>\<open>next()\<close> when the user holds one), and
  \<^verbatim>\<open>hasPermission\<close> answers 403 when a required permission is missing. When the lookup
  of the user's roles throws, \<^verbatim>\<open>hasRole\<close> and \<^verbatim>\<open>hasPermission\<close> answer 500 and do not
  call \<^verbatim>\<open>next()\<close>.
\<close>

theorem fail_open_only_in_limiter:
  "(client r \<and> quiet (commands_issued opts request now r) (redis_faults r) \<and>
    maxRequests opts \<le> int (length (counted now (windowMs opts) (limiter_key opts request) r)) \<longrightarrow>
      (\<exists>resetTime. fst (createRateLimiter opts request now rnd r) =
         Inr ([(''X-RateLimit-Limit'', maxRequests opts), (''X-RateLimit-Remaining'', 0),
               (''X-RateLimit-Reset'', resetTime), (''Retry-After'', resetTime)],
              Respond 429 (LimitBody (limitMessage opts) resetTime)))) \<and>
   (\<not> client r \<or> \<not> quiet (commands_issued opts request now r) (redis_faults r) \<longrightarrow>
      fst (createRateLimiter opts request now rnd r) = Inr ([], Next)) \<and>
   (answers db \<and> primary_keys db \<and> userId u \<noteq> [] \<longrightarrow>
      (set rs \<inter> role_names db (userId u) = {} \<longrightarrow>
         (\<exists>text. fst (hasRole (Many rs) (Some u) db) =
            Inr (Respond 403 \<lparr>success = False, message = text, data = None\<rparr>))) \<and>
      (set rs \<inter> role_names db (userId u) \<noteq> {} \<longrightarrow> fst (hasRole (Many rs) (Some u) db) = Inr Next) \<and>
      (rl \<notin> role_names db (userId u) \<longrightarrow>
         (\<exists>text. fst (hasRole (Single rl) (Some u) db) =
            Inr (Respond 403 \<lparr>success = False, message = text, data = None\<rparr>))) \<and>
      (rl \<in> role_names db (userId u) \<longrightarrow> fst (hasRole (Single rl) (Some u) db) = Inr Next) \<and>
      (\<not> set ps \<subseteq> effective_permissions db (userId u) \<longrightarrow>
         (\<exists>text. fst (hasPermission (Many ps) (Some u) db) =
            Inr (Respond 403 \<lparr>success = False, message = text, data = None\<rparr>))) \<and>
      (p \<notin> effective_permissions db (userId u) \<longrightarrow>
         (\<exists>text. fst (hasPermission (Single p) (Some u) db) =
            Inr (Respond 403 \<lparr>success = False, message = text, data = None\<rparr>)))) \<and>
   (\<not> answers db \<and> userId u \<noteq> [] \<longrightarrow>
      fst (hasRole allowed (Some u) db) =
        Inr (Respond 500 \<lparr>success = False, message = ''Failed to check user role'', data = None\<rparr>) \<and>
      fst (hasPermission needed (Some u) db) =
        Inr (Respond 500 \<lparr>success = False, message = ''Failed to check user permissions'', data = None\<rparr>))"
proof -
  have L1: "\<exists>resetTime. fst (createRateLimiter opts request now rnd r) =
         Inr ([(''X-RateLimit-Limit'', maxRequests opts), (''X-RateLimit-Remaining'', 0),
               (''X-RateLimit-Reset'', resetTime), (''Retry-After'', resetTime)],
              Respond 429 (LimitBody (limitMessage opts) resetTime))"
    if "client r" "quiet (commands_issued opts request now r) (redis_faults r)"
      "maxRequests opts \<le> int (length (counted now (windowMs opts) (limiter_key opts request) r))"
  proof -
    have same: "fst (createRateLimiter opts request now rnd r) = fst (createRateLimiter opts request now rnd (calm r))"
      using limiter_under_faults [of r opts request now rnd] that(1,2) by blast
    have "maxRequests opts \<le> int (length (counted now (windowMs opts) (limiter_key opts request) (calm r)))"
      using that(3) by simp
    from limiter_rejects [OF healthy_calm [OF that(1)] this, of rnd]
    obtain resetTime r' where "createRateLimiter opts request now rnd (calm r) =
        (Inr ([(''X-RateLimit-Limit'', maxRequests opts), (''X-RateLimit-Remaining'', 0),
               (''X-RateLimit-Reset'', resetTime), (''Retry-After'', resetTime)],
              Respond 429 (LimitBody (limitMessage opts) resetTime)), r')"
      by blast
    then show ?thesis unfolding same by (intro exI [of _ resetTime]) simp
  qed
  have L2: "fst (createRateLimiter opts request now rnd r) = Inr ([], Next)"
    if "\<not> client r \<or> \<not> quiet (commands_issued opts request now r) (redis_faults r)"
    using limiter_under_faults [of r opts request now rnd] that by blast
  have A1: "(set rs \<inter> role_names db (userId u) = {} \<longrightarrow>
         (\<exists>text. fst (hasRole (Many rs) (Some u) db) =
            Inr (Respond 403 \<lparr>success = False, message = text, data = None\<rparr>))) \<and>
      (set rs \<inter> role_names db (userId u) \<noteq> {} \<longrightarrow> fst (hasRole (Many rs) (Some u) db) = Inr Next) \<and>
      (rl \<notin> role_names db (userId u) \<longrightarrow>
         (\<exists>text. fst (hasRole (Single rl) (Some u) db) =
            Inr (Respond 403 \<lparr>success = False, message = text, data = None\<rparr>))) \<and>
      (rl \<in> role_names db (userId u) \<longrightarrow> fst (hasRole (Single rl) (Some u) db) = Inr Next) \<and>
      (\<not> set ps \<subseteq> effective_permissions db (userId u) \<longrightarrow>
         (\<exists>text. fst (hasPermission (Many ps) (Some u) db) =
            Inr (Respond 403 \<lparr>success = False, message = text, data = None\<rparr>))) \<and>
      (p \<notin> effective_permissions db (userId u) \<longrightarrow>
         (\<exists>text. fst (hasPermission (Single p) (Some u) db) =
            Inr (Respond 403 \<lparr>success = False, message = text, data = None\<rparr>)))"
    if "answers db" "primary_keys db" "userId u \<noteq> []"
    using that(3) hasRole_decision [OF that(1,2), of "Many rs" "Some u"]
      hasRole_decision [OF that(1,2), of "Single rl" "Some u"]
      hasPermission_decision [OF that(1,2), of "Many ps" "Some u"]
      hasPermission_decision [OF that(1,2), of "Single p" "Some u"]
    by (simp add: no_user_id_def denied_def FORBIDDEN_def)
  have A2: "fst (hasRole allowed (Some u) db) =
        Inr (Respond 500 \<lparr>success = False, message = ''Failed to check user role'', data = None\<rparr>) \<and>
      fst (hasPermission needed (Some u) db) =
        Inr (Respond 500 \<lparr>success = False, message = ''Failed to check user permissions'', data = None\<rparr>)"
    if "\<not> answers db" "userId u \<noteq> []"
  proof -
    from that(2) have "\<not> no_user_id (Some u)" by (simp add: no_user_id_def)
    from authorization_fails_closed(1) [OF that(1) this, where rs = allowed]
      authorization_fails_closed(2) [OF that(1) this, where ps = needed]
    show ?thesis by (simp add: denied_def INTERNAL_SERVER_ERROR_def)
  qed
  from L1 L2 A1 A2 show ?thesis by blast
qed

theorem fail_open_only_in_limiter_witness:
  "fst (createRateLimiter demo_options ''10.0.0.7'' 3000 3 busy_redis) =
     Inr ([(''X-RateLimit-Limit'', 2), (''X-RateLimit-Remaining'', 0),
           (''X-RateLimit-Reset'', 59), (''Retry-After'', 59)],
          Respond 429 (LimitBody ''Too many requests. Please slow down.'' 59)) \<and>
   fst (createRateLimiter demo_options ''10.0.0.7'' 3000 3 (fading busy_redis)) =
     Inr ([(''X-RateLimit-Limit'', 2), (''X-RateLimit-Remaining'', 0),
           (''X-RateLimit-Reset'', 59), (''Retry-After'', 59)],
          Respond 429 (LimitBody ''Too many requests. Please slow down.'' 59)) \<and>
   fst (createRateLimiter demo_options ''10.0.0.7'' 3000 3
          (busy_redis\<lparr>redis_faults := [None, None, Some (Error ''Socket closed unexpectedly'')]\<rparr>)) = Inr ([], Next) \<and>
   fst (createRateLimiter demo_options ''10.0.0.7'' 3000 3 (fading fresh_redis)) = Inr ([], Next) \<and>
   fst (createRateLimiter demo_options ''10.0.0.7'' 1000 1 lost_redis) = Inr ([], Next) \<and>
   fst (createRateLimiter demo_options ''10.0.0.7'' 1000 1 down_redis) = Inr ([], Next) \<and>
   fst (createRateLimiter demo_options ''10.0.0.7'' 3000 3 (busy_redis\<lparr>client := False\<rparr>)) = Inr ([], Next) \<and>
   answers demo_db \<and> primary_keys demo_db \<and>
   fst (hasRole (Single ''admin'') (Some carol) demo_db) =
     Inr (Respond 403 \<lparr>success = False, message = ''Access denied. Required role(s): admin'', data = None\<rparr>) \<and>
   fst (hasRole (Single ''editor'') (Some bob) demo_db) =
     Inr (Respond 403 \<lparr>success = False, message = ''Access denied. Required role(s): editor'', data = None\<rparr>) \<and>
   fst (hasRole (Many [''editor'', ''auditor'']) (Some bob) demo_db) =
     Inr (Respond 403 \<lparr>success = False, message = ''Access denied. Required role(s): editor, auditor'', data = None\<rparr>) \<and>
   fst (hasRole (Many [''editor'', ''admin'']) (Some bob) demo_db) = Inr Next \<and>
   fst (hasRole (Single ''admin'') (Some bob) demo_db) = Inr Next \<and>
   fst (hasPermission (Many [''users.read'', ''users.create'']) (Some bob) demo_db) =
     Inr (Respond 403 \<lparr>success = False,
            message = ''Access denied. Required permission(s): users.read, users.create'', data = None\<rparr>) \<and>
   fst (hasPermission (Single ''users.create'') (Some bob) demo_db) =
     Inr (Respond 403 \<lparr>success = False,
            message = ''Access denied. Required permission(s): users.create'', data = None\<rparr>) \<and>
   \<not> answers (unreachable demo_db) \<and>
   fst (hasRole (Single ''admin'') (Some alice) (unreachable demo_db)) =
     Inr (Respond 500 \<lparr>success = False, message = ''Failed to check user role'', data = None\<rparr>) \<and>
   fst (hasPermission (Single ''users.read'') (Some alice) (unreachable demo_db)) =
     Inr (Respond 500 \<lparr>success = False, message = ''Failed to check user permissions'', data = None\<rparr>)"
proof -
  have l1: "fst (createRateLimiter demo_options ''10.0.0.7'' 3000 3 busy_redis) =
     Inr ([(''X-RateLimit-Limit'', 2), (''X-RateLimit-Remaining'', 0),
           (''X-RateLimit-Reset'', 59), (''Retry-After'', 59)],
          Respond 429 (LimitBody ''Too many requests. Please slow down.'' 59))"
    by (simp add: limiter_eval)
  have l2: "fst (createRateLimiter demo_options ''10.0.0.7'' 3000 3 (fading busy_redis)) =
     Inr ([(''X-RateLimit-Limit'', 2), (''X-RateLimit-Remaining'', 0),
           (''X-RateLimit-Reset'', 59), (''Retry-After'', 59)],
          Respond 429 (LimitBody ''Too many requests. Please slow down.'' 59))"
    by (simp add: limiter_eval)
  have l3: "fst (createRateLimiter demo_options ''10.0.0.7'' 3000 3
          (busy_redis\<lparr>redis_faults := [None, None, Some (Error ''Socket closed unexpectedly'')]\<rparr>)) = Inr ([], Next)"
    using fail_open_only_in_limiter [where opts = demo_options and request = "''10.0.0.7''" and now = 3000 and rnd = 3
        and r = "busy_redis\<lparr>redis_faults := [None, None, Some (Error ''Socket closed unexpectedly'')]\<rparr>", THEN conjunct2, THEN conjunct1]
    by (simp add: commands_issued_def demo_counted quiet_numerals)
  have l4: "fst (createRateLimiter demo_options ''10.0.0.7'' 3000 3 (fading fresh_redis)) = Inr ([], Next)"
    using fail_open_only_in_limiter [where opts = demo_options and request = "''10.0.0.7''" and now = 3000 and rnd = 3 and r = "fading fresh_redis", THEN conjunct2, THEN conjunct1]
    by (simp add: commands_issued_def fading_def demo_counted quiet_numerals) (simp add: demo_options_def fresh_redis_def quiet_numerals)
  have l5: "fst (createRateLimiter demo_options ''10.0.0.7'' 1000 1 lost_redis) = Inr ([], Next)"
    using fail_open_only_in_limiter [where opts = demo_options and request = "''10.0.0.7''" and now = 1000 and rnd = 1 and r = lost_redis, THEN conjunct2, THEN conjunct1]
    by (simp add: commands_issued_def demo_counted quiet_numerals lost_redis_def)
  have l6: "fst (createRateLimiter demo_options ''10.0.0.7'' 1000 1 down_redis) = Inr ([], Next)"
    using fail_open_only_in_limiter [where opts = demo_options and request = "''10.0.0.7''" and now = 1000 and rnd = 1 and r = down_redis, THEN conjunct2, THEN conjunct1]
    by (simp add: commands_issued_def demo_counted quiet_numerals down_redis_def)
  have l7: "fst (createRateLimiter demo_options ''10.0.0.7'' 3000 3 (busy_redis\<lparr>client := False\<rparr>)) = Inr ([], Next)"
    using fail_open_only_in_limiter [where opts = demo_options and request = "''10.0.0.7''" and now = 3000 and rnd = 3
        and r = "busy_redis\<lparr>client := False\<rparr>", THEN conjunct2, THEN conjunct1]
    by simp
  have a1: "fst (hasRole (Single ''admin'') (Some carol) demo_db) =
     Inr (Respond 403 \<lparr>success = False, message = ''Access denied. Required role(s): admin'', data = None\<rparr>)"
    by (simp add: authz_eval carol_def)
  have a2: "fst (hasRole (Single ''editor'') (Some bob) demo_db) =
     Inr (Respond 403 \<lparr>success = False, message = ''Access denied. Required role(s): editor'', data = None\<rparr>)"
    by (simp add: authz_eval bob_def)
  have a3: "fst (hasRole (Many [''editor'', ''auditor'']) (Some bob) demo_db) =
     Inr (Respond 403 \<lparr>success = False, message = ''Access denied. Required role(s): editor, auditor'', data = None\<rparr>)"
    by (simp add: authz_eval bob_def)
  have a4: "fst (hasRole (Many [''editor'', ''admin'']) (Some bob) demo_db) = Inr Next"
    using fail_open_only_in_limiter [where db = demo_db and u = bob and rs = "[''editor'', ''admin'']", THEN conjunct2, THEN conjunct2, THEN conjunct1] demo_db_ok
    by (simp add: bob_def demo_role_names)
  have a5: "fst (hasRole (Single ''admin'') (Some bob) demo_db) = Inr Next"
    using fail_open_only_in_limiter [where db = demo_db and u = bob and rl = "''admin''", THEN conjunct2, THEN conjunct2, THEN conjunct1] demo_db_ok
    by (simp add: bob_def demo_role_names)
  have a6: "fst (hasPermission (Many [''users.read'', ''users.create'']) (Some bob) demo_db) =
     Inr (Respond 403 \<lparr>success = False,
            message = ''Access denied. Required permission(s): users.read, users.create'', data = None\<rparr>)"
    by (simp add: authz_eval bob_def)
  have a7: "fst (hasPermission (Single ''users.create'') (Some bob) demo_db) =
     Inr (Respond 403 \<lparr>success = False,
            message = ''Access denied. Required permission(s): users.create'', data = None\<rparr>)"
    by (simp add: authz_eval bob_def)
  have u: "\<not> answers (unreachable demo_db)" by (simp add: answers_def unreachable_def)
  from fail_open_only_in_limiter [where db = "unreachable demo_db" and u = alice and allowed = "Single ''admin''" and needed = "Single ''users.read''", THEN conjunct2, THEN conjunct2, THEN conjunct2] u
  have f1: "fst (hasRole (Single ''admin'') (Some alice) (unreachable demo_db)) =
     Inr (Respond 500 \<lparr>success = False, message = ''Failed to check user role'', data = None\<rparr>)"
    and f2: "fst (hasPermission (Single ''users.read'') (Some alice) (unreachable demo_db)) =
     Inr (Respond 500 \<lparr>success = False, message = ''Failed to check user permissions'', data = None\<rparr>)"
    by (simp_all add: alice_def)
  from l1 l2 l3 l4 l5 l6 l7 demo_db_ok a1 a2 a3 a4 a5 a6 a7 u f1 f2 show ?thesis by (intro conjI)
qed

text \<open>
  The claim as stated fails for the authorization checks: with the database down, a user
  who holds the role and the permission is answered 500, and with the database up the
  same request passes.
\<close>

theorem authorization_fails_open_counterexample:
  "\<not> answers (unreachable demo_db) \<and>
   fst (hasPermission (Single ''users.read'') (Some alice) (unreachable demo_db))
     = Inr (Respond 500 \<lparr>success = False, message = ''Failed to check user permissions'', data = None\<rparr>) \<and>
   fst (hasPermission (Single ''users.read'') (Some alice) (unreachable demo_db)) \<noteq> Inr Next \<and>
   fst (hasRole (Single ''admin'') (Some alice) (unreachable demo_db))
     = Inr (Respond 500 \<lparr>success = False, message = ''Failed to check user role'', data = None\<rparr>) \<and>
   fst (hasRole (Single ''admin'') (Some alice) (unreachable demo_db)) \<noteq> Inr Next \<and>
   fst (hasPermission (Single ''users.read'') (Some alice) demo_db) = Inr Next \<and>
   fst (hasRole (Single ''admin'') (Some alice) demo_db) = Inr Next"
  by (simp add: hasPermission_def hasRole_def no_user_id_def alice_def demo_db_def unreachable_def
      try_catch_def await_def resolve_def answers_def denied_def INTERNAL_SERVER_ERROR_def
      userRole_findMany_permissions_def userRole_findMany_role_def prisma_call_def role_of_def
      role_permission_names_def permission_of_def List.map_filter_simps)

end
